theory Spec2Isabelle
  imports Main
begin

section \<open>JavaScript strings\<close>

text \<open>
  The monitor is JavaScript. A JavaScript string is modelled as a HOL \<open>string\<close>, one
  \<open>char\<close> per code unit, which covers the code units below 256 (ASCII and Latin-1).
  The white space of \<^verbatim>\<open>String.prototype.trim\<close> and of the regular expression class
  \<^verbatim>\<open>\s\<close> in that range is TAB, LF, VT, FF, CR, SPACE and NBSP.
\<close>

definition isWhiteSpace :: "char \<Rightarrow> bool" where
  "isWhiteSpace c =
     (c = CHR 0x09 \<or> c = CHR 0x0A \<or> c = CHR 0x0B \<or> c = CHR 0x0C \<or> c = CHR 0x0D \<or>
      c = CHR 0x20 \<or> c = CHR 0xA0)"

definition trim :: "string \<Rightarrow> string" where
  "trim s = rev (dropWhile isWhiteSpace (rev (dropWhile isWhiteSpace s)))"

text \<open>\<^verbatim>\<open>s.includes(sub)\<close>: \<open>sub\<close> occurs in \<open>s\<close> as a contiguous run.\<close>

fun startsWith :: "string \<Rightarrow> string \<Rightarrow> bool" where
  "startsWith s [] = True"
| "startsWith [] (p # ps) = False"
| "startsWith (c # cs) (p # ps) = (c = p \<and> startsWith cs ps)"

fun str_includes :: "string \<Rightarrow> string \<Rightarrow> bool" where
  "str_includes [] sub = startsWith [] sub"
| "str_includes (c # cs) sub = (startsWith (c # cs) sub \<or> str_includes cs sub)"

text \<open>
  Letter case under the \<^verbatim>\<open>i\<close> flag. Every letter of the patterns of the monitor is an
  ASCII letter, and without the \<^verbatim>\<open>u\<close> flag no code unit of 128 or more is
  canonicalised to an ASCII one, so folding \<open>A\<close>..\<open>Z\<close> onto \<open>a\<close>..\<open>z\<close> decides
  whether a character of the text matches a letter of a pattern. A character is given by
  its bits, the lowest first: the codes 65 to 90 are those with the bits 7, 6 and 5 equal
  to 0, 1 and 0 and the five low bits between 1 and 26, and the lower case letter is the
  upper case one with bit 5 set.
\<close>

fun lc :: "char \<Rightarrow> char" where
  "lc (Char b0 b1 b2 b3 b4 b5 b6 b7) =
     (if \<not> b7 \<and> b6 \<and> \<not> b5 \<and> (b0 \<or> b1 \<or> b2 \<or> b3 \<or> b4) \<and> \<not> (b4 \<and> b3 \<and> (b2 \<or> (b1 \<and> b0)))
      then Char b0 b1 b2 b3 b4 True b6 b7
      else Char b0 b1 b2 b3 b4 b5 b6 b7)"

text \<open>\<^verbatim>\<open>String(n)\<close> for a number that is a non-negative integer or NaN.\<close>

datatype jsnum = Num nat | NaN

definition digitChar :: "nat \<Rightarrow> char" where
  "digitChar d = ''0123456789'' ! d"

fun decimal :: "nat \<Rightarrow> string" where
  "decimal n = (if n < 10 then [digitChar n] else decimal (n div 10) @ [digitChar (n mod 10)])"

declare decimal.simps [simp del]

fun String :: "jsnum \<Rightarrow> string" where
  "String (Num n) = decimal n"
| "String NaN = ''NaN''"

section \<open>Regular expressions\<close>

text \<open>
  The fragment of JavaScript regular expressions the monitor uses: a run of literal
  characters, \<^verbatim>\<open>\s*\<close>, \<^verbatim>\<open>r?\<close>, alternation and concatenation, all under the
  \<^verbatim>\<open>i\<close> flag. \<open>lang\<close> is the set of strings an expression matches as a whole.
\<close>

datatype regexp =
    Lit string
  | WsStar
  | Opt regexp
  | Alt regexp regexp
  | Cat regexp regexp

fun lang :: "regexp \<Rightarrow> string set" where
  "lang (Lit l) = {x. map lc x = map lc l}"
| "lang WsStar = {x. list_all isWhiteSpace x}"
| "lang (Opt r) = insert [] (lang r)"
| "lang (Alt a b) = lang a \<union> lang b"
| "lang (Cat a b) = {x @ y | x y. x \<in> lang a \<and> y \<in> lang b}"

text \<open>
  The matcher. \<open>rems r s\<close> lists what is left of \<open>s\<close> after each way of matching \<open>r\<close> at
  the start of \<open>s\<close>; \<^verbatim>\<open>r.test(s)\<close> holds when \<open>r\<close> matches at some position of \<open>s\<close>.
\<close>

fun startsWithCI :: "string \<Rightarrow> string \<Rightarrow> bool" where
  "startsWithCI s [] = True"
| "startsWithCI [] (p # ps) = False"
| "startsWithCI (c # cs) (p # ps) = (lc c = lc p \<and> startsWithCI cs ps)"

fun wsRems :: "string \<Rightarrow> string list" where
  "wsRems [] = [[]]"
| "wsRems (c # cs) = (c # cs) # (if isWhiteSpace c then wsRems cs else [])"

fun rems :: "regexp \<Rightarrow> string \<Rightarrow> string list" where
  "rems (Lit l) s = (if startsWithCI s l then [drop (length l) s] else [])"
| "rems WsStar s = wsRems s"
| "rems (Opt r) s = rems r s @ [s]"
| "rems (Alt a b) s = rems a s @ rems b s"
| "rems (Cat a b) s = concat (map (rems b) (rems a s))"

fun test :: "regexp \<Rightarrow> string \<Rightarrow> bool" where
  "test r [] = (rems r [] \<noteq> [])"
| "test r (c # cs) = (rems r (c # cs) \<noteq> [] \<or> test r cs)"

declare test.simps [simp del]

section \<open>Dates\<close>

text \<open>
  \<^verbatim>\<open>new Date(targetDate + 'T12:00:00').getDate()\<close>: the day of the month of a date in the
  ECMAScript date-time format \<^verbatim>\<open>YYYY-MM-DDTHH:mm:ss\<close>, read as local time. A string that
  is not of this format, or names a day that the calendar does not have, is an invalid
  date, whose day is NaN (the standard leaves to the engine what it does with such a
  string; the date input of the form only produces calendar dates).
\<close>

fun position :: "char \<Rightarrow> string \<Rightarrow> nat option" where
  "position c [] = None"
| "position c (d # ds) = (if c = d then Some 0 else map_option Suc (position c ds))"

definition digitVal :: "char \<Rightarrow> nat option" where
  "digitVal c = position c ''0123456789''"

fun parseDigits :: "nat \<Rightarrow> string \<Rightarrow> nat option" where
  "parseDigits acc [] = Some acc"
| "parseDigits acc (c # cs) =
     (case digitVal c of None \<Rightarrow> None | Some d \<Rightarrow> parseDigits (10 * acc + d) cs)"

definition daysInMonth :: "nat \<Rightarrow> nat \<Rightarrow> nat" where
  "daysInMonth y m =
     (if m = 2 then
        (if y mod 400 = 0 then 29 else if y mod 100 = 0 then 28
         else if y mod 4 = 0 then 29 else 28)
      else if m = 4 \<or> m = 6 \<or> m = 9 \<or> m = 11 then 30 else 31)"

definition getDate :: "string \<Rightarrow> jsnum" where
  "getDate s =
     (if length s = 19 \<and> s ! 4 = CHR ''-'' \<and> s ! 7 = CHR ''-'' \<and> drop 10 s = ''T12:00:00'' then
        (case (parseDigits 0 (take 4 s), parseDigits 0 (take 2 (drop 5 s)),
               parseDigits 0 (take 2 (drop 8 s))) of
           (Some y, Some m, Some d) \<Rightarrow>
             if 1 \<le> m \<and> m \<le> 12 \<and> 1 \<le> d \<and> d \<le> daysInMonth y m then Num d else NaN
         | _ \<Rightarrow> NaN)
      else NaN)"

section \<open>The data of the monitor\<close>

text \<open>The \<^verbatim>\<open>config\<close> object of \<^verbatim>\<open>startMonitor\<close> (src/monitor/parking.js).\<close>

record config =
  email :: string
  password :: string
  seasonPass :: string
  licensePlate :: string
  targetDate :: string
  intervalMs :: nat
  chromiumPath :: "string option"

text \<open>
  A value that is a string, \<^verbatim>\<open>null\<close> or \<^verbatim>\<open>undefined\<close> is truthy when it is a
  non-empty string.
\<close>

fun truthy :: "string option \<Rightarrow> bool" where
  "truthy None = False"
| "truthy (Some s) = (s \<noteq> [])"

text \<open>The types of status of the \<^verbatim>\<open>onStatus\<close> callback.\<close>

datatype status_type = Checking | Monitoring | Available | Success | Error

text \<open>What \<^verbatim>\<open>checkAndBook\<close> returns, and what \<^verbatim>\<open>startMonitor\<close> returns.\<close>

record check_result =
  available :: bool
  booked :: bool
  status :: "string option"

record monitor_result =
  monitor_booked :: bool

datatype js_error = JsError (message: string)

section \<open>The browser\<close>

text \<open>
  The selectors of the queries of \<^verbatim>\<open>checkAndBook\<close>, named after the variable that takes
  the result. \<open>DateSel d\<close> is the selector of the cell of date \<open>d\<close> (its data-date or
  aria-label attribute) and \<open>DaySel n\<close> the selector of the buttons, table cells and day
  elements that have the text \<open>n\<close>.
\<close>

datatype selector =
    LoginButtonSel | EmailInputSel | PasswordInputSel | SubmitSel
  | DateSel string | DaySel string | NextButtonSel
  | BookButtonSel | PassInputSel | PlateInputSel | ConfirmButtonSel

text \<open>
  The calls to Playwright. \<open>Launch p\<close> is \<^verbatim>\<open>chromium.launch\<close> with the executable path
  \<open>p\<close>; \<open>Query\<close> is \<^verbatim>\<open>page.$\<close> and \<open>QueryAll\<close> is \<^verbatim>\<open>page.$$\<close>; \<open>PageFill\<close> and
  \<open>PageClick\<close> act on a selector, \<open>ElClick\<close>, \<open>ElFill\<close>, \<open>ElInnerText\<close> and
  \<open>ElGetAttribute\<close> on an element a query returned (\<open>ElClick\<close> and \<open>ElFill\<close> name
  the query); \<open>BodyInnerText\<close> is \<^verbatim>\<open>page.innerText('body')\<close>; \<open>Close\<close> is
  \<^verbatim>\<open>browser.close\<close>.
\<close>

datatype api =
    Launch "string option" | NewContext | NewPage | Goto string
  | WaitForTimeout nat | WaitForLoadState
  | Query selector | QueryAll selector
  | PageFill selector string | PageClick selector
  | ElClick selector | ElFill selector string | ElInnerText | ElGetAttribute string
  | BodyInnerText | Close

text \<open>
  What the site answers during one attempt. An element of the calendar has its visible
  text and its \<^verbatim>\<open>disabled\<close> and \<^verbatim>\<open>class\<close> attributes (\<open>None\<close> when the attribute is
  absent). A view is what the queries of one iteration of the calendar loop return.
  The page is live, so each iteration reads its own view.
\<close>

record element =
  innerText :: string
  attr_disabled :: "string option"
  attr_class :: "string option"

record view =
  dateElement :: "element option"
  dayElements :: "element list"
  nextButton :: bool

text \<open>
  The world of one attempt: \<open>failure w n\<close> is the message of the error with which the
  \<open>n\<close>-th Playwright call of the attempt rejects (\<open>None\<close> when it resolves), counted
  from 0; \<open>latency w n\<close> is the time in milliseconds it takes; the other fields are the
  results of the queries when they resolve.
\<close>

record world =
  failure :: "nat \<Rightarrow> string option"
  latency :: "nat \<Rightarrow> nat"
  loginButton :: bool
  emailInput :: bool
  calendar :: "nat \<Rightarrow> view"
  pageText :: string
  bookButton :: bool
  passInput :: bool
  plateInput :: bool
  confirmButton :: bool
  successText :: string

text \<open>
  The state of a run: the number of Playwright calls of the attempt in flight, the clock
  in milliseconds, and the trace, which holds each status sent to \<^verbatim>\<open>onStatus\<close> and each
  Playwright call with the time at which it settled and whether it resolved.
\<close>

datatype entry = Status status_type string | Call api bool

record bstate =
  calls :: nat
  now :: nat
  trace :: "(nat \<times> entry) list"

type_synonym 'a io = "bstate \<Rightarrow> (js_error + 'a) \<times> bstate"

definition returns :: "'a \<Rightarrow> 'a io" where
  "returns x s = (Inr x, s)"

definition throws :: "js_error \<Rightarrow> 'a io" where
  "throws err s = (Inl err, s)"

definition bind_io :: "'a io \<Rightarrow> ('a \<Rightarrow> 'b io) \<Rightarrow> 'b io" where
  "bind_io m f s = (case m s of (Inl err, s') \<Rightarrow> (Inl err, s') | (Inr x, s') \<Rightarrow> f x s')"

definition catch_io :: "'a io \<Rightarrow> (js_error \<Rightarrow> 'a io) \<Rightarrow> 'a io" where
  "catch_io m h s = (case m s of (Inl err, s') \<Rightarrow> h err s' | (Inr x, s') \<Rightarrow> (Inr x, s'))"

definition emit :: "status_type \<Rightarrow> string \<Rightarrow> bstate \<Rightarrow> bstate" where
  "emit ty msg s = s\<lparr>trace := trace s @ [(now s, Status ty msg)]\<rparr>"

definition onStatus :: "status_type \<Rightarrow> string \<Rightarrow> unit io" where
  "onStatus ty msg s = (Inr (), emit ty msg s)"

fun cost :: "api \<Rightarrow> nat" where
  "cost (WaitForTimeout ms) = ms"
| "cost a = 0"

text \<open>
  A Playwright call settles after its latency (and, for \<^verbatim>\<open>waitForTimeout\<close>, the time
  waited), resolved or rejected as the world says.
\<close>

definition settle :: "world \<Rightarrow> api \<Rightarrow> bool \<Rightarrow> bstate \<Rightarrow> bstate" where
  "settle w a ok s =
     (let t = now s + latency w (calls s) + cost a in
      s\<lparr>calls := Suc (calls s), now := t, trace := trace s @ [(t, Call a ok)]\<rparr>)"

definition call :: "world \<Rightarrow> api \<Rightarrow> unit io" where
  "call w a s =
     (case failure w (calls s) of
        None \<Rightarrow> (Inr (), settle w a True s)
      | Some msg \<Rightarrow> (Inl (JsError msg), settle w a False s))"

definition query :: "world \<Rightarrow> api \<Rightarrow> 'a \<Rightarrow> 'a io" where
  "query w a v = bind_io (call w a) (\<lambda>_. returns v)"

section \<open>One attempt: \<^verbatim>\<open>checkAndBook\<close>\<close>

text \<open>
  Launching the browser (lines 98 to 117): with the bundled Chromium when
  \<^verbatim>\<open>chromiumPath\<close> is truthy; when that launch rejects and a path was given, a status
  and a second launch with no path, else the error is thrown again.
\<close>

definition launch :: "config \<Rightarrow> world \<Rightarrow> unit io" where
  "launch cfg w =
     catch_io (call w (Launch (if truthy (chromiumPath cfg) then chromiumPath cfg else None)))
       (\<lambda>err.
          if truthy (chromiumPath cfg) then
            bind_io (onStatus Error ''Failed to launch bundled Chromium, trying system browser...'')
              (\<lambda>_. call w (Launch None))
          else throws err)"

text \<open>
  The lookup of the day number (lines 169 to 175): the first of the candidate elements
  whose trimmed text is the day.
\<close>

fun findExactDay :: "world \<Rightarrow> string \<Rightarrow> element list \<Rightarrow> element option io" where
  "findExactDay w targetDay [] = returns None"
| "findExactDay w targetDay (el # els) =
     bind_io (query w ElInnerText (innerText el))
       (\<lambda>text. if trim text = targetDay then returns (Some el)
               else findExactDay w targetDay els)"

text \<open>
  The lookup of the date in one view (lines 158 to 176): by the selector of the date,
  and when that finds nothing, by the day number.
\<close>

definition lookupDate :: "config \<Rightarrow> world \<Rightarrow> view \<Rightarrow> element option io" where
  "lookupDate cfg w v =
     bind_io (query w (Query (DateSel (targetDate cfg))) (dateElement v))
       (\<lambda>dateEl.
          if dateEl = None then
            (let targetDay = getDate (targetDate cfg @ ''T12:00:00'') in
             bind_io (query w (QueryAll (DaySel (String targetDay))) (dayElements v))
               (findExactDay w (String targetDay)))
          else returns dateEl)"

definition maxAttempts :: nat where
  "maxAttempts = 12"

definition soldOut :: check_result where
  "soldOut = \<lparr>available = False, booked = False, status = Some ''sold_out''\<rparr>"

text \<open>
  A date element was found (lines 178 to 194): sold out when it is disabled or its
  class says so, and the function returns (\<open>Some\<close>); else it is clicked and the
  loop is left (\<open>None\<close>).
\<close>

definition selectDate :: "config \<Rightarrow> world \<Rightarrow> element \<Rightarrow> check_result option io" where
  "selectDate cfg w el =
     bind_io (query w (ElGetAttribute ''disabled'') (attr_disabled el)) (\<lambda>isDisabled.
     bind_io (query w (ElGetAttribute ''class'') (attr_class el)) (\<lambda>cls.
       let classList = (if truthy cls then the cls else []) in
       if truthy isDisabled \<or> str_includes classList ''disabled''
          \<or> str_includes classList ''sold-out''
       then
         bind_io (onStatus Checking (targetDate cfg @ '' found but SOLD OUT'')) (\<lambda>_.
         bind_io (call w Close) (\<lambda>_.
         returns (Some soldOut)))
       else
         bind_io (onStatus Checking (''Found '' @ targetDate cfg @ '' - selecting...'')) (\<lambda>_.
         bind_io (call w (ElClick (DateSel (targetDate cfg)))) (\<lambda>_.
         bind_io (call w (WaitForTimeout 2000)) (\<lambda>_.
         returns None)))))"

text \<open>No date element was found (lines 196 to 201): the next month, when there is a button.\<close>

definition nextMonth :: "world \<Rightarrow> view \<Rightarrow> unit io" where
  "nextMonth w v =
     bind_io (query w (Query NextButtonSel) (nextButton v)) (\<lambda>nextBtn.
     if nextBtn then
       bind_io (call w (ElClick NextButtonSel)) (\<lambda>_.
       call w (WaitForTimeout 1000))
     else returns ())"

text \<open>
  The calendar loop (lines 153 to 203). Its value is \<open>Some r\<close> when the function
  returned \<open>r\<close> from inside the loop, and \<open>None\<close> when the loop was left by
  \<^verbatim>\<open>break\<close> or by its condition and the function goes on after it.
\<close>

function calendarLoop :: "config \<Rightarrow> world \<Rightarrow> nat \<Rightarrow> check_result option io" where
  "calendarLoop cfg w attempts =
     (if attempts < maxAttempts then
        bind_io (lookupDate cfg w (calendar w attempts)) (\<lambda>dateEl.
          case dateEl of
            Some el \<Rightarrow> selectDate cfg w el
          | None \<Rightarrow>
              bind_io (nextMonth w (calendar w attempts)) (\<lambda>_.
              calendarLoop cfg w (attempts + 1)))
      else returns None)"
  by pat_completeness auto
termination
  by (relation "measure (\<lambda>(cfg, w, attempts). maxAttempts - attempts)") auto

declare calendarLoop.simps [simp del]

text \<open>The patterns of lines 209 to 215 and of line 257.\<close>

definition soldOutPatterns :: "regexp list" where
  "soldOutPatterns =
     [Cat (Lit ''sold'') (Cat WsStar (Lit ''out'')),
      Cat (Lit ''no'') (Cat WsStar (Cat (Alt (Cat (Lit ''spot'') (Opt (Lit ''s''))) (Lit ''parking''))
        (Cat WsStar (Lit ''available'')))),
      Cat (Lit ''fully'') (Cat WsStar (Lit ''booked'')),
      Lit ''unavailable'',
      Lit ''waitlist'']"

definition successPattern :: regexp where
  "successPattern =
     Alt (Lit ''confirm'') (Alt (Lit ''success'') (Alt (Lit ''booked'') (Alt (Lit ''reserved'')
       (Cat (Lit ''thank'') (Cat WsStar (Lit ''you''))))))"

text \<open>
  The confirmation, once a confirm button was found (lines 252 to 260). The value is
  \<open>Some r\<close> when the function returned \<open>r\<close> at line 259.
\<close>

definition confirmBooking :: "world \<Rightarrow> check_result option io" where
  "confirmBooking w =
     bind_io (call w (ElClick ConfirmButtonSel)) (\<lambda>_.
     bind_io (call w (WaitForTimeout 3000)) (\<lambda>_.
     bind_io (catch_io (query w BodyInnerText (successText w)) (\<lambda>_. returns [])) (\<lambda>successTxt.
     if test successPattern successTxt then
       bind_io (call w Close) (\<lambda>_.
       returns (Some \<lparr>available = True, booked = True, status = None\<rparr>))
     else returns None)))"

text \<open>The booking, once a booking button was found (lines 229 to 265).\<close>

definition bookSpot :: "config \<Rightarrow> world \<Rightarrow> check_result io" where
  "bookSpot cfg w =
     bind_io (onStatus Available
                (''SPOT AVAILABLE for '' @ targetDate cfg @ ''! Attempting to book...'')) (\<lambda>_.
     bind_io (call w (ElClick BookButtonSel)) (\<lambda>_.
     bind_io (call w (WaitForTimeout 2000)) (\<lambda>_.
     bind_io (query w (Query PassInputSel) (passInput w)) (\<lambda>passIn.
     bind_io (if passIn then
                bind_io (call w (ElFill PassInputSel (seasonPass cfg))) (\<lambda>_.
                onStatus Available ''Entered season pass...'')
              else returns ()) (\<lambda>_.
     bind_io (query w (Query PlateInputSel) (plateInput w)) (\<lambda>plateIn.
     bind_io (if plateIn then
                bind_io (call w (ElFill PlateInputSel (licensePlate cfg))) (\<lambda>_.
                onStatus Available ''Entered license plate...'')
              else returns ()) (\<lambda>_.
     bind_io (query w (Query ConfirmButtonSel) (confirmButton w)) (\<lambda>confirmBtn.
     bind_io (if confirmBtn then confirmBooking w else returns None) (\<lambda>returned.
     case returned of
       Some r \<Rightarrow> returns r
     | None \<Rightarrow>
         bind_io (onStatus Error
                    ''Spot was available but auto-booking may have failed. Check manually!'') (\<lambda>_.
         bind_io (call w Close) (\<lambda>_.
         returns \<lparr>available = True, booked = False, status = None\<rparr>)))))))))))"

text \<open>The login, when the page asks for it (lines 127 to 148).\<close>

definition logIn :: "config \<Rightarrow> world \<Rightarrow> unit io" where
  "logIn cfg w =
     bind_io (query w (Query LoginButtonSel) (loginButton w)) (\<lambda>loginBtn.
     bind_io (query w (Query EmailInputSel) (emailInput w)) (\<lambda>emailIn.
     if loginBtn \<or> emailIn then
       bind_io (onStatus Checking ''Logging in...'') (\<lambda>_.
       bind_io (if loginBtn then
                  bind_io (call w (ElClick LoginButtonSel)) (\<lambda>_.
                  call w (WaitForTimeout 1500))
                else returns ()) (\<lambda>_.
       bind_io (call w (PageFill EmailInputSel (email cfg))) (\<lambda>_.
       bind_io (call w (PageFill PasswordInputSel (password cfg))) (\<lambda>_.
       bind_io (call w (PageClick SubmitSel)) (\<lambda>_.
       bind_io (call w (WaitForTimeout 3000)) (\<lambda>_.
       call w WaitForLoadState))))))
     else returns ()))"

text \<open>
  The state of the page after the calendar loop (lines 205 to 270): the scan of the text
  of the page for the sold-out patterns, then the booking button.
\<close>

definition checkPageState :: "config \<Rightarrow> world \<Rightarrow> check_result io" where
  "checkPageState cfg w =
     bind_io (catch_io (query w BodyInnerText (pageText w)) (\<lambda>_. returns [])) (\<lambda>pageTxt.
     if list_ex (\<lambda>pattern. test pattern pageTxt) soldOutPatterns then
       bind_io (onStatus Checking (targetDate cfg @ '': No parking available'')) (\<lambda>_.
       bind_io (call w Close) (\<lambda>_.
       returns soldOut))
     else
       bind_io (query w (Query BookButtonSel) (bookButton w)) (\<lambda>bookBtn.
       if bookBtn then bookSpot cfg w
       else
         bind_io (onStatus Checking (''No parking available for '' @ targetDate cfg)) (\<lambda>_.
         bind_io (call w Close) (\<lambda>_.
         returns \<lparr>available = False, booked = False, status = Some ''not_found''\<rparr>))))"

text \<open>The body of the \<^verbatim>\<open>try\<close> block (lines 123 to 270).\<close>

definition tryBlock :: "config \<Rightarrow> world \<Rightarrow> check_result io" where
  "tryBlock cfg w =
     bind_io (call w (Goto ''https://reserve.altaparking.com'')) (\<lambda>_.
     bind_io (call w (WaitForTimeout 2000)) (\<lambda>_.
     bind_io (logIn cfg w) (\<lambda>_.
     bind_io (onStatus Checking ''Looking for target date...'') (\<lambda>_.
     bind_io (calendarLoop cfg w 0) (\<lambda>returned.
     case returned of
       Some r \<Rightarrow> returns r
     | None \<Rightarrow> checkPageState cfg w)))))"

text \<open>
  \<^verbatim>\<open>checkAndBook\<close> (lines 93 to 276): the status, the launch, the context and the page,
  then the \<^verbatim>\<open>try\<close> block, whose \<^verbatim>\<open>catch\<close> closes the browser and throws the error
  again. The calls of the attempt are counted from 0.
\<close>

definition checkAndBook :: "config \<Rightarrow> world \<Rightarrow> check_result io" where
  "checkAndBook cfg w s =
     bind_io (onStatus Checking (''Checking availability for '' @ targetDate cfg @ ''...'')) (\<lambda>_.
     bind_io (launch cfg w) (\<lambda>_.
     bind_io (call w NewContext) (\<lambda>_.
     bind_io (call w NewPage) (\<lambda>_.
     catch_io (tryBlock cfg w) (\<lambda>err.
       bind_io (call w Close) (\<lambda>_.
       throws err))))))
     (s\<lparr>calls := 0\<rparr>)"

section \<open>The poll loop: \<^verbatim>\<open>startMonitor\<close>\<close>

text \<open>
  The signal of a run is the time at which \<^verbatim>\<open>abort()\<close> is called on its controller
  (\<open>None\<close> when it never is); \<^verbatim>\<open>signal.aborted\<close> holds from that time on.
\<close>

type_synonym abort_signal = "nat option"

fun aborted :: "abort_signal \<Rightarrow> nat \<Rightarrow> bool" where
  "aborted None t = False"
| "aborted (Some a) t = (a \<le> t)"

text \<open>
  The delay of a timer of Node.js: \<^verbatim>\<open>setTimeout(resolve, ms)\<close> with \<open>ms\<close> below 1 or
  above 2147483647 runs with a delay of 1 millisecond.
\<close>

definition setTimeoutDelay :: "nat \<Rightarrow> nat" where
  "setTimeoutDelay ms = (if ms < 1 \<or> 2147483647 < ms then 1 else ms)"

text \<open>
  \<^verbatim>\<open>waitWithAbort\<close> (lines 72 to 88): resolved at once when the signal is aborted, else
  by the timer or by the handler of the abort event, whichever comes first.
\<close>

definition waitWithAbort :: "nat \<Rightarrow> abort_signal \<Rightarrow> bstate \<Rightarrow> bstate" where
  "waitWithAbort ms signal s =
     (if aborted signal (now s) then s
      else s\<lparr>now := (case signal of
                       None \<Rightarrow> now s + setTimeoutDelay ms
                     | Some a \<Rightarrow> min a (now s + setTimeoutDelay ms))\<rparr>)"

text \<open>\<^verbatim>\<open>Math.round(intervalMs / 60000)\<close>, as text.\<close>

definition minutes :: "nat \<Rightarrow> string" where
  "minutes ms = decimal ((ms + 30000) div 60000)"

definition monitorStopped :: "bstate \<Rightarrow> monitor_result option \<times> bstate" where
  "monitorStopped s = (Some \<lparr>monitor_booked = False\<rparr>, emit Monitoring ''Monitor stopped'' s)"

text \<open>
  The main loop (lines 40 to 66) over the worlds of the attempts to come, one for each
  attempt. The loop has no bound of its own: the result is \<open>None\<close> when the run is
  still polling after the last attempt of the list.
\<close>

fun monitorLoop ::
  "config \<Rightarrow> abort_signal \<Rightarrow> world list \<Rightarrow> bstate \<Rightarrow> monitor_result option \<times> bstate" where
  "monitorLoop cfg signal [] s = (if aborted signal (now s) then monitorStopped s else (None, s))"
| "monitorLoop cfg signal (w # ws) s =
     (if aborted signal (now s) then monitorStopped s
      else
        (case checkAndBook cfg w s of
           (Inr result, s1) \<Rightarrow>
             if booked result then
               (Some \<lparr>monitor_booked = True\<rparr>,
                emit Success (''Successfully booked parking for '' @ targetDate cfg @ ''!'') s1)
             else if aborted signal (now s1) then monitorStopped s1
             else
               monitorLoop cfg signal ws
                 (waitWithAbort (intervalMs cfg) signal
                    (emit Monitoring
                       (''Next check in '' @ minutes (intervalMs cfg) @ '' minute(s)...'') s1))
         | (Inl err, s1) \<Rightarrow>
             if aborted signal (now s1) then monitorStopped s1
             else
               monitorLoop cfg signal ws
                 (waitWithAbort (intervalMs cfg) signal
                    (emit Error (''Error during check: '' @ message err) s1))))"

text \<open>The required fields, in the order of the object of line 29.\<close>

definition required :: "config \<Rightarrow> (string \<times> string) list" where
  "required cfg =
     [(''email'', email cfg), (''password'', password cfg), (''seasonPass'', seasonPass cfg),
      (''licensePlate'', licensePlate cfg), (''targetDate'', targetDate cfg)]"

text \<open>\<^verbatim>\<open>startMonitor\<close> (lines 25 to 67): the validation, the status, the loop.\<close>

definition startMonitor ::
  "config \<Rightarrow> abort_signal \<Rightarrow> world list \<Rightarrow> bstate \<Rightarrow> monitor_result option \<times> bstate" where
  "startMonitor cfg signal ws s =
     (case find (\<lambda>(key, v). v = []) (required cfg) of
        Some (key, v) \<Rightarrow>
          (Some \<lparr>monitor_booked = False\<rparr>, emit Error (''Missing required config: '' @ key) s)
      | None \<Rightarrow>
          monitorLoop cfg signal ws
            (emit Monitoring
               (''Starting monitor for '' @ targetDate cfg @ '' (checking every ''
                  @ minutes (intervalMs cfg) @ '' min)'') s))"

section \<open>The main process: the handler of \<^verbatim>\<open>start-monitor\<close>\<close>

text \<open>
  The configuration the renderer sends (src/main/index.js, line 238), with the interval
  in minutes.
\<close>

record ipc_config =
  ipc_email :: string
  ipc_password :: string
  ipc_seasonPass :: string
  ipc_licensePlate :: string
  ipc_targetDate :: string
  ipc_intervalMinutes :: nat

text \<open>
  The state of the main process: the variable \<^verbatim>\<open>monitorAbortController\<close> (controllers
  are numbered in the order of their creation), the number of controllers created, for
  each controller the time at which its signal was aborted, the runs of
  \<^verbatim>\<open>startMonitor\<close> that were started (controller, configuration, time of the call), and
  the statuses the main process itself sent.
\<close>

record main_process =
  monitorAbortController :: "nat option"
  created :: nat
  abortedAt :: "nat \<Rightarrow> nat option"
  started :: "(nat \<times> config \<times> nat) list"
  sent :: "(nat \<times> entry) list"

text \<open>\<^verbatim>\<open>controller.abort()\<close> at time \<open>t\<close>: the signal is aborted from the first call on.\<close>

definition abort :: "nat \<Rightarrow> nat \<Rightarrow> main_process \<Rightarrow> main_process" where
  "abort c t m =
     (case abortedAt m c of
        None \<Rightarrow> m\<lparr>abortedAt := (abortedAt m)(c := Some t)\<rparr>
      | Some t0 \<Rightarrow> m)"

text \<open>\<^verbatim>\<open>getChromiumPath\<close> (lines 187 to 200), from the resources path of the process.\<close>

definition getChromiumPath :: "string \<Rightarrow> string" where
  "getChromiumPath resourcesPath =
     resourcesPath @ ''/chromium/chrome-mac-arm64/Google Chrome for Testing.app''
       @ ''/Contents/MacOS/Google Chrome for Testing''"

text \<open>
  The handler of \<^verbatim>\<open>start-monitor\<close> (lines 238 to 296), called at time \<open>t\<close>: it aborts
  the controller in the variable, if there is one, puts a new controller there, sends a
  status, and calls \<^verbatim>\<open>startMonitor\<close> with the signal of the new controller, without
  awaiting it or the run that was aborted.
\<close>

definition handleStartMonitor ::
  "nat \<Rightarrow> string \<Rightarrow> ipc_config \<Rightarrow> main_process \<Rightarrow> main_process" where
  "handleStartMonitor t resourcesPath config m =
     (let m1 = (case monitorAbortController m of Some c \<Rightarrow> abort c t m | None \<Rightarrow> m);
          c' = created m1;
          m2 = m1\<lparr>monitorAbortController := Some c', created := Suc c'\<rparr>;
          m3 = m2\<lparr>sent := sent m2 @
                 [(t, Status Monitoring
                        (''Starting monitor for '' @ ipc_targetDate config @ ''...''))]\<rparr>;
          monitorConfig =
            \<lparr>email = ipc_email config, password = ipc_password config,
             seasonPass = ipc_seasonPass config, licensePlate = ipc_licensePlate config,
             targetDate = ipc_targetDate config,
             intervalMs = ipc_intervalMinutes config * 60 * 1000,
             chromiumPath = Some (getChromiumPath resourcesPath)\<rparr>
      in m3\<lparr>started := started m3 @ [(c', monitorConfig, t)]\<rparr>)"

text \<open>
  The callback of the promise of a run (lines 276 to 281), when the run returns at time
  \<open>t\<close>: a status if the run booked, and the variable is cleared, whichever controller
  it holds by then.
\<close>

definition runSettled :: "nat \<Rightarrow> monitor_result \<Rightarrow> main_process \<Rightarrow> main_process" where
  "runSettled t result m =
     (let m1 = (if monitor_booked result
                then m\<lparr>sent := sent m @ [(t, Status Success ''Parking successfully booked!'')]\<rparr>
                else m)
      in m1\<lparr>monitorAbortController := None\<rparr>)"

text \<open>
  The run that a call of the handler started, in the worlds of its attempts: its signal
  is the one of its controller, and its clock starts at the time of the call.
\<close>

definition runOf ::
  "main_process \<Rightarrow> nat \<times> config \<times> nat \<Rightarrow> world list \<Rightarrow> monitor_result option \<times> bstate" where
  "runOf m r ws =
     (case r of (c, monitorConfig, t) \<Rightarrow>
        startMonitor monitorConfig (abortedAt m c) ws \<lparr>calls = 0, now = t, trace = []\<rparr>)"

text \<open>
  A browser session of a run is open at time \<open>t\<close>: up to \<open>t\<close>, more launches have
  resolved than calls of \<^verbatim>\<open>browser.close()\<close>.
\<close>

fun isLaunch :: "entry \<Rightarrow> bool" where
  "isLaunch (Call (Launch p) ok) = ok"
| "isLaunch e = False"

definition sessionOpen :: "nat \<Rightarrow> bstate \<Rightarrow> bool" where
  "sessionOpen t s =
     (length (filter (\<lambda>(u, e). u \<le> t \<and> e = Call Close True) (trace s))
        < length (filter (\<lambda>(u, e). u \<le> t \<and> isLaunch e) (trace s)))"

section \<open>Reading the trace\<close>

text \<open>\<open>callCount a s\<close>: how many times the call \<open>a\<close> was issued in the trace of \<open>s\<close>.\<close>

fun isCall :: "api \<Rightarrow> nat \<times> entry \<Rightarrow> bool" where
  "isCall a (t, Call b ok) = (a = b)"
| "isCall a (t, Status ty msg) = False"

definition callCount :: "api \<Rightarrow> bstate \<Rightarrow> nat" where
  "callCount a s = length (filter (isCall a) (trace s))"

text \<open>\<open>adds a k m\<close>: the action \<open>m\<close> issues the call \<open>a\<close> at most \<open>k\<close> times.\<close>

definition adds :: "api \<Rightarrow> nat \<Rightarrow> 'a io \<Rightarrow> bool" where
  "adds a k m = (\<forall>s. callCount a (snd (m s)) \<le> callCount a s + k)"

text \<open>
  The calls that the theorems count: the query of the date cell (one for each iteration
  of the calendar loop), the click on the next month, the click on the date cell and the
  click on the confirm button.
\<close>

definition tracked :: "config \<Rightarrow> api \<Rightarrow> bool" where
  "tracked cfg a =
     (a = Query (DateSel (targetDate cfg)) \<or> a = ElClick NextButtonSel
      \<or> a = ElClick (DateSel (targetDate cfg)) \<or> a = ElClick ConfirmButtonSel)"


text \<open>
  After the last click on the confirm button that resolved, a read of the text of the
  page resolved: the \<^verbatim>\<open>catch\<close> of line 256 did not replace the text by the empty string.
\<close>

definition readAfterConfirm :: "bstate \<Rightarrow> bool" where
  "readAfterConfirm s =
     list_ex (\<lambda>(t, e). e = Call BodyInnerText True)
       (takeWhile (\<lambda>(t, e). e \<noteq> Call (ElClick ConfirmButtonSel) True) (rev (trace s)))"

text \<open>
  The result of an attempt that clicked the confirm button and returned, as read from
  its final state; \<open>decides w m\<close>: a run of \<open>m\<close> that clicks the confirm button and
  returns, returns that result.
\<close>

definition verdict :: "world \<Rightarrow> bstate \<Rightarrow> check_result" where
  "verdict w s =
     (if readAfterConfirm s \<and> test successPattern (successText w)
      then \<lparr>available = True, booked = True, status = None\<rparr>
      else \<lparr>available = True, booked = False, status = None\<rparr>)"

definition decides :: "world \<Rightarrow> check_result io \<Rightarrow> bool" where
  "decides w m =
     (\<forall>s r s'. m s = (Inr r, s')
        \<and> callCount (ElClick ConfirmButtonSel) s < callCount (ElClick ConfirmButtonSel) s'
        \<longrightarrow> r = verdict w s')"

section \<open>Example inputs\<close>

text \<open>
  A configuration as the form sends it, one whose email is blank, the state before a run,
  and two worlds: one that shows the target date sold out in the first view, and one
  that shows it open and confirms the booking.
\<close>

definition exampleConfig :: config where
  "exampleConfig =
     \<lparr>email = ''skier@example.com'', password = ''secret'', seasonPass = ''SP123'',
      licensePlate = ''ABC123'', targetDate = ''2025-01-15'', intervalMs = 60000,
      chromiumPath = None\<rparr>"

definition blankEmailConfig :: config where
  "blankEmailConfig = exampleConfig\<lparr>email := ''   ''\<rparr>"

definition initialState :: bstate where
  "initialState = \<lparr>calls = 0, now = 0, trace = []\<rparr>"

definition soldOutView :: view where
  "soldOutView =
     \<lparr>dateElement = Some \<lparr>innerText = ''15'', attr_disabled = None,
                            attr_class = Some ''day sold-out''\<rparr>,
      dayElements = [], nextButton = True\<rparr>"

definition openView :: view where
  "openView =
     \<lparr>dateElement = Some \<lparr>innerText = ''15'', attr_disabled = None,
                            attr_class = Some ''day''\<rparr>,
      dayElements = [], nextButton = True\<rparr>"

definition soldOutWorld :: world where
  "soldOutWorld =
     \<lparr>failure = (\<lambda>n. None), latency = (\<lambda>n. 10), loginButton = False, emailInput = False,
      calendar = (\<lambda>i. soldOutView), pageText = ''Sold out'', bookButton = False,
      passInput = False, plateInput = False, confirmButton = False, successText = []\<rparr>"

definition bookingWorld :: world where
  "bookingWorld =
     \<lparr>failure = (\<lambda>n. None), latency = (\<lambda>n. 10), loginButton = False, emailInput = False,
      calendar = (\<lambda>i. openView), pageText = ''Select your parking'', bookButton = True,
      passInput = False, plateInput = False, confirmButton = True,
      successText = ''Thank you, your reservation is confirmed''\<rparr>"

text \<open>
  A configuration for the first of January, a view whose day cells show 12, 21 and 1,
  and a world in which the call that creates the browser context rejects.
\<close>

definition newYearConfig :: config where
  "newYearConfig = exampleConfig\<lparr>targetDate := ''2025-01-01''\<rparr>"

definition dayCell :: "string \<Rightarrow> element" where
  "dayCell t = \<lparr>innerText = t, attr_disabled = None, attr_class = Some ''day''\<rparr>"

definition dayView :: view where
  "dayView =
     \<lparr>dateElement = None,
      dayElements = [dayCell ''12'', dayCell ''21'', dayCell '' 1 '', dayCell ''1''],
      nextButton = True\<rparr>"

definition contextFailsWorld :: world where
  "contextFailsWorld =
     bookingWorld\<lparr>failure := (\<lambda>n. if n = 1 then Some ''Target closed'' else None)\<rparr>"

text \<open>
  Worlds for the scan of the page: the date is open and selected, and the page then
  shows a sold-out phrase in capitals, or the hyphenated \<open>sold-out\<close> and no booking
  button.
\<close>

definition fullyBookedWorld :: world where
  "fullyBookedWorld = bookingWorld\<lparr>pageText := ''Sorry, FULLY BOOKED today''\<rparr>"

definition hyphenWorld :: world where
  "hyphenWorld = bookingWorld\<lparr>pageText := ''sold-out'', bookButton := False\<rparr>"

text \<open>
  Worlds whose calendar never shows the target date: no date cell, no day cell and no
  next button in any view. In the first the page that is left shows a booking button
  and a confirm button and then a confirmation; in the second it shows no booking
  button.
\<close>

definition emptyView :: view where
  "emptyView = \<lparr>dateElement = None, dayElements = [], nextButton = False\<rparr>"

definition emptyCalendarWorld :: world where
  "emptyCalendarWorld = bookingWorld\<lparr>calendar := (\<lambda>i. emptyView)\<rparr>"

definition nothingWorld :: world where
  "nothingWorld = bookingWorld\<lparr>calendar := (\<lambda>i. emptyView), bookButton := False\<rparr>"

text \<open>A world in which the booking is submitted and the page then reports an error.\<close>

definition wentWrongWorld :: world where
  "wentWrongWorld = bookingWorld\<lparr>successText := ''Something went wrong''\<rparr>"

text \<open>
  A world in which the booking is confirmed and the call of \<^verbatim>\<open>browser.close()\<close> that
  follows (line 258, the call 22 of the attempt) rejects.
\<close>

definition closeFailsWorld :: world where
  "closeFailsWorld =
     bookingWorld\<lparr>failure := (\<lambda>n. if n = 22 then Some ''Target closed'' else None)\<rparr>"

text \<open>
  The main process before any call, the configuration of the form, and the state after
  two calls of the handler of \<^verbatim>\<open>start-monitor\<close>, at the times 0 and 1000, with no stop
  between them.
\<close>

definition idleMain :: main_process where
  "idleMain =
     \<lparr>monitorAbortController = None, created = 0, abortedAt = (\<lambda>c. None), started = [],
      sent = []\<rparr>"

definition exampleForm :: ipc_config where
  "exampleForm =
     \<lparr>ipc_email = ''skier@example.com'', ipc_password = ''secret'', ipc_seasonPass = ''SP123'',
      ipc_licensePlate = ''ABC123'', ipc_targetDate = ''2025-01-15'', ipc_intervalMinutes = 1\<rparr>"

definition twoStarts :: main_process where
  "twoStarts =
     handleStartMonitor 1000 ''/app'' exampleForm (handleStartMonitor 0 ''/app'' exampleForm idleMain)"

section \<open>Evaluation\<close>

lemma calendarLoop_step:
  "attempts < maxAttempts \<Longrightarrow>
   calendarLoop cfg w attempts =
     bind_io (lookupDate cfg w (calendar w attempts)) (\<lambda>dateEl.
       case dateEl of
         Some el \<Rightarrow> selectDate cfg w el
       | None \<Rightarrow>
           bind_io (nextMonth w (calendar w attempts)) (\<lambda>_.
           calendarLoop cfg w (attempts + 1)))"
  by (subst calendarLoop.simps) simp

lemma calendarLoop_done:
  "\<not> attempts < maxAttempts \<Longrightarrow> calendarLoop cfg w attempts = returns None"
  by (subst calendarLoop.simps) simp

lemma calendarLoop_apply:
  "calendarLoop cfg w attempts s =
     (if attempts < maxAttempts then
        bind_io (lookupDate cfg w (calendar w attempts)) (\<lambda>dateEl.
          case dateEl of
            Some el \<Rightarrow> selectDate cfg w el
          | None \<Rightarrow>
              bind_io (nextMonth w (calendar w attempts)) (\<lambda>_.
              calendarLoop cfg w (attempts + 1))) s
      else returns None s)"
  by (subst calendarLoop.simps) simp

lemmas io_defs = bind_io_def catch_io_def returns_def throws_def onStatus_def emit_def call_def
  settle_def query_def Let_def

lemmas attempt_defs = checkAndBook_def launch_def tryBlock_def logIn_def lookupDate_def
  selectDate_def nextMonth_def checkPageState_def bookSpot_def confirmBooking_def soldOut_def
  calendarLoop_apply maxAttempts_def

lemmas text_defs = trim_def isWhiteSpace_def getDate_def digitVal_def daysInMonth_def
  decimal.simps digitChar_def soldOutPatterns_def successPattern_def minutes_def test.simps

lemmas monitor_defs = startMonitor_def required_def monitorStopped_def waitWithAbort_def
  setTimeoutDelay_def

lemmas example_defs = exampleConfig_def blankEmailConfig_def initialState_def soldOutView_def
  openView_def soldOutWorld_def bookingWorld_def newYearConfig_def dayCell_def dayView_def
  contextFailsWorld_def fullyBookedWorld_def hyphenWorld_def emptyView_def
  emptyCalendarWorld_def nothingWorld_def wentWrongWorld_def closeFailsWorld_def idleMain_def
  exampleForm_def twoStarts_def

lemma now_emit [simp]: "now (emit ty msg s) = now s"
  by (simp add: emit_def)

lemma calls_emit [simp]: "calls (emit ty msg s) = calls s"
  by (simp add: emit_def)

lemma trace_emit [simp]: "trace (emit ty msg s) = trace s @ [(now s, Status ty msg)]"
  by (simp add: emit_def)

text \<open>The case folding, by character codes.\<close>

lemma lc_code:
  "of_char (lc c) =
     (if 65 \<le> (of_char c :: nat) \<and> (of_char c :: nat) \<le> 90 then of_char c + 32 else of_char c)"
  by (cases c) (simp split: if_splits)

section \<open>The poll loop\<close>

text \<open>
  With a poll interval above 2147483647 milliseconds (some 24.8 days) the wait between
  two attempts lasts one millisecond.
\<close>

lemma waitWithAbort_long_interval:
  "2147483647 < ms \<Longrightarrow> waitWithAbort ms None s = s\<lparr>now := now s + 1\<rparr>"
  by (simp add: waitWithAbort_def setTimeoutDelay_def)

lemma monitorLoop_polling_not_aborted:
  "monitorLoop cfg signal ws s = (None, s1) \<Longrightarrow> \<not> aborted signal (now s1)"
proof (induction ws arbitrary: s)
  case Nil
  then show ?case by (auto simp: monitorStopped_def split: if_splits)
next
  case (Cons w ws)
  then show ?case
    by (auto simp: monitorStopped_def split: if_splits prod.splits sum.splits)
qed

text \<open>A run that is still polling after some attempts goes on with the attempts that follow.\<close>

lemma monitorLoop_append:
  "monitorLoop cfg signal pre s = (None, s1) \<Longrightarrow>
   monitorLoop cfg signal (pre @ rest) s = monitorLoop cfg signal rest s1"
proof (induction pre arbitrary: s)
  case Nil
  then show ?case by (cases rest) (auto simp: monitorStopped_def split: if_splits)
next
  case (Cons w pre)
  then show ?case
    by (auto simp: monitorStopped_def split: if_splits prod.splits sum.splits)
qed

lemma startMonitor_append:
  "startMonitor cfg signal pre s = (None, s1) \<Longrightarrow>
   startMonitor cfg signal (pre @ rest) s = monitorLoop cfg signal rest s1"
  by (auto simp: startMonitor_def monitorLoop_append split: option.splits)

lemma startMonitor_polling_not_aborted:
  "startMonitor cfg signal ws s = (None, s1) \<Longrightarrow> \<not> aborted signal (now s1)"
  by (auto simp: startMonitor_def split: option.splits dest: monitorLoop_polling_not_aborted)

section \<open>One attempt\<close>

subsection \<open>What a returned result says of the path\<close>

lemma bind_io_InrE:
  assumes "bind_io m f s = (Inr y, s')"
  obtains x s1 where "m s = (Inr x, s1)" and "f x s1 = (Inr y, s')"
  using assms by (cases "m s") (auto simp: bind_io_def split: sum.splits)

lemma query_InrD: "query w a v s = (Inr x, s') \<Longrightarrow> x = v"
  by (auto simp: query_def returns_def elim!: bind_io_InrE)

lemma returns_InrD: "returns v s = (Inr x, s') \<Longrightarrow> x = v"
  by (simp add: returns_def)

lemma findExactDay_Some:
  "findExactDay w day els s = (Inr (Some el), s') \<Longrightarrow> el \<in> set els \<and> trim (innerText el) = day"
proof (induction els arbitrary: s)
  case Nil
  then show ?case by (simp add: returns_def)
next
  case (Cons e els)
  from Cons.prems obtain tx s1 where q: "query w ElInnerText (innerText e) s = (Inr tx, s1)"
    and r: "(if trim tx = day then returns (Some e) else findExactDay w day els) s1
            = (Inr (Some el), s')"
    by (auto elim!: bind_io_InrE)
  have tx: "tx = innerText e" using q by (rule query_InrD)
  show ?case
  proof (cases "trim tx = day")
    case True
    with r tx show ?thesis by (simp add: returns_def)
  next
    case False
    with r have "findExactDay w day els s1 = (Inr (Some el), s')" by simp
    then show ?thesis using Cons.IH by auto
  qed
qed

lemma lookupDate_fallback_Some:
  assumes "dateElement v = None" and "lookupDate cfg w v s = (Inr (Some el), s')"
  shows "el \<in> set (dayElements v)
    \<and> trim (innerText el) = String (getDate (targetDate cfg @ ''T12:00:00''))"
proof -
  let ?day = "String (getDate (targetDate cfg @ ''T12:00:00''))"
  from assms(2) obtain dateEl s1 where
    q: "query w (Query (DateSel (targetDate cfg))) (dateElement v) s = (Inr dateEl, s1)" and
    r: "(if dateEl = None then
           bind_io (query w (QueryAll (DaySel ?day)) (dayElements v)) (findExactDay w ?day)
         else returns dateEl) s1 = (Inr (Some el), s')"
    unfolding lookupDate_def Let_def by (elim bind_io_InrE) blast
  have "dateEl = None" using q assms(1) by (auto dest: query_InrD)
  with r obtain els s2 where
    q2: "query w (QueryAll (DaySel ?day)) (dayElements v) s1 = (Inr els, s2)" and
    f: "findExactDay w ?day els s2 = (Inr (Some el), s')"
    by (auto elim!: bind_io_InrE)
  have "els = dayElements v" using q2 by (rule query_InrD)
  with f show ?thesis using findExactDay_Some by blast
qed

subsection \<open>When every call resolves\<close>

lemma call_ok: "\<forall>n. failure w n = None \<Longrightarrow> call w a s = (Inr (), settle w a True s)"
  by (simp add: call_def)

lemma query_ok: "\<forall>n. failure w n = None \<Longrightarrow> query w a v s = (Inr v, settle w a True s)"
  by (simp add: query_def bind_io_def returns_def call_ok)

lemma findExactDay_ok:
  "\<forall>n. failure w n = None \<Longrightarrow>
   fst (findExactDay w day els s) = Inr (find (\<lambda>el. trim (innerText el) = day) els)"
  by (induction els arbitrary: s) (simp_all add: returns_def bind_io_def query_ok)

lemma lookupDate_ok:
  "\<forall>n. failure w n = None \<Longrightarrow>
   fst (lookupDate cfg w v s) =
     Inr (case dateElement v of
            Some el \<Rightarrow> Some el
          | None \<Rightarrow> find (\<lambda>el. trim (innerText el) = String (getDate (targetDate cfg @ ''T12:00:00'')))
                      (dayElements v))"
  by (simp add: lookupDate_def bind_io_def query_ok returns_def findExactDay_ok Let_def
      split: option.splits)

section \<open>The matcher and the language of a pattern\<close>

lemma startsWithCI_iff:
  "startsWithCI s l \<longleftrightarrow> length l \<le> length s \<and> map lc (take (length l) s) = map lc l"
  by (induction s l rule: startsWithCI.induct) auto

lemma wsRems_set: "set (wsRems s) = {t. \<exists>x. s = x @ t \<and> list_all isWhiteSpace x}"
proof (induction s)
  case Nil
  then show ?case by auto
next
  case (Cons c cs)
  show ?case
  proof (intro set_eqI iffI)
    fix t assume "t \<in> set (wsRems (c # cs))"
    then consider "t = c # cs" | "isWhiteSpace c" "t \<in> set (wsRems cs)"
      by (auto split: if_splits)
    then show "t \<in> {t. \<exists>x. c # cs = x @ t \<and> list_all isWhiteSpace x}"
    proof cases
      case 1
      then show ?thesis by (auto intro: exI [of _ "[]"])
    next
      case 2
      then obtain x where "cs = x @ t" "list_all isWhiteSpace x" using Cons.IH by auto
      with 2 show ?thesis by (auto intro!: exI [of _ "c # x"])
    qed
  next
    fix t assume "t \<in> {t. \<exists>x. c # cs = x @ t \<and> list_all isWhiteSpace x}"
    then obtain x where x: "c # cs = x @ t" "list_all isWhiteSpace x" by auto
    show "t \<in> set (wsRems (c # cs))"
    proof (cases x)
      case Nil
      with x have "t = c # cs" by simp
      then show ?thesis by simp
    next
      case (Cons d x')
      with x have "isWhiteSpace c" "cs = x' @ t" "list_all isWhiteSpace x'" by auto
      then show ?thesis using Cons.IH by auto
    qed
  qed
qed

lemma lang_Lit_iff:
  "s = x @ t \<and> map lc x = map lc l \<longleftrightarrow>
   length l \<le> length s \<and> map lc (take (length l) s) = map lc l \<and> x = take (length l) s
   \<and> t = drop (length l) s"
proof
  assume a: "s = x @ t \<and> map lc x = map lc l"
  then have "length x = length l" using map_eq_imp_length_eq by blast
  with a show "length l \<le> length s \<and> map lc (take (length l) s) = map lc l
      \<and> x = take (length l) s \<and> t = drop (length l) s"
    by simp
next
  assume "length l \<le> length s \<and> map lc (take (length l) s) = map lc l
      \<and> x = take (length l) s \<and> t = drop (length l) s"
  then show "s = x @ t \<and> map lc x = map lc l" by simp
qed

text \<open>The remainders the matcher lists are those that the language of the pattern leaves.\<close>

lemma rems_set: "set (rems r s) = {t. \<exists>x. s = x @ t \<and> x \<in> lang r}"
proof (induction r arbitrary: s)
  case (Lit l)
  show ?case
    by (auto simp: startsWithCI_iff lang_Lit_iff)
next
  case WsStar
  show ?case by (simp add: wsRems_set)
next
  case (Opt r)
  then show ?case by auto
next
  case (Alt a b)
  then show ?case by auto
next
  case (Cat a b)
  show ?case
  proof (intro set_eqI iffI)
    fix u assume "u \<in> set (rems (Cat a b) s)"
    then obtain t where "t \<in> set (rems a s)" "u \<in> set (rems b t)" by auto
    then obtain x y where "s = x @ t" "x \<in> lang a" "t = y @ u" "y \<in> lang b"
      using Cat.IH by auto
    then have "s = (x @ y) @ u \<and> x @ y \<in> lang (Cat a b)" by auto
    then show "u \<in> {t. \<exists>x. s = x @ t \<and> x \<in> lang (Cat a b)}" by blast
  next
    fix u assume "u \<in> {t. \<exists>x. s = x @ t \<and> x \<in> lang (Cat a b)}"
    then obtain x y where "s = (x @ y) @ u" "x \<in> lang a" "y \<in> lang b" by auto
    then have "y @ u \<in> set (rems a s)" "u \<in> set (rems b (y @ u))"
      using Cat.IH by auto
    then show "u \<in> set (rems (Cat a b) s)" by auto
  qed
qed

lemma rems_nonempty_iff: "rems r s \<noteq> [] \<longleftrightarrow> (\<exists>x t. s = x @ t \<and> x \<in> lang r)"
proof -
  have "rems r s \<noteq> [] \<longleftrightarrow> set (rems r s) \<noteq> {}" by simp
  also have "\<dots> \<longleftrightarrow> (\<exists>x t. s = x @ t \<and> x \<in> lang r)" unfolding rems_set by blast
  finally show ?thesis .
qed

text \<open>\<^verbatim>\<open>r.test(s)\<close> holds exactly when some part of \<open>s\<close> is in the language of \<open>r\<close>.\<close>

lemma test_iff: "test r s \<longleftrightarrow> (\<exists>pre x post. s = pre @ x @ post \<and> x \<in> lang r)"
proof (induction s)
  case Nil
  show ?case by (auto simp: rems_nonempty_iff test.simps)
next
  case (Cons c cs)
  show ?case
  proof
    assume "test r (c # cs)"
    then consider "rems r (c # cs) \<noteq> []" | "test r cs" by (auto simp: test.simps)
    then show "\<exists>pre x post. c # cs = pre @ x @ post \<and> x \<in> lang r"
    proof cases
      case 1
      then obtain x t where "c # cs = x @ t" "x \<in> lang r" by (auto simp: rems_nonempty_iff)
      then have "c # cs = [] @ x @ t \<and> x \<in> lang r" by simp
      then show ?thesis by blast
    next
      case 2
      then obtain pre x post where "cs = pre @ x @ post" "x \<in> lang r" using Cons.IH by auto
      then have "c # cs = (c # pre) @ x @ post \<and> x \<in> lang r" by simp
      then show ?thesis by blast
    qed
  next
    assume "\<exists>pre x post. c # cs = pre @ x @ post \<and> x \<in> lang r"
    then obtain pre x post where *: "c # cs = pre @ x @ post" "x \<in> lang r" by auto
    show "test r (c # cs)"
    proof (cases pre)
      case Nil
      with * have "rems r (c # cs) \<noteq> []" by (auto simp: rems_nonempty_iff)
      then show ?thesis by (simp add: test.simps)
    next
      case (Cons d pre')
      with * have "cs = pre' @ x @ post" by simp
      with * have "test r cs" using Cons.IH by blast
      then show ?thesis by (simp add: test.simps)
    qed
  qed
qed

lemma lang_iff_rems: "x \<in> lang r \<longleftrightarrow> [] \<in> set (rems r x)"
  by (simp add: rems_set)

text \<open>The language of a pattern is closed under changes of letter case.\<close>

lemma lang_case_insensitive: "x \<in> lang r \<Longrightarrow> map lc y = map lc x \<Longrightarrow> y \<in> lang r"
proof (induction r arbitrary: x y)
  case (Lit l)
  then show ?case by simp
next
  case WsStar
  have ws: "isWhiteSpace (lc c) = isWhiteSpace c" for c
    by (cases c) (auto simp: isWhiteSpace_def)
  from WsStar have "list_all isWhiteSpace (map lc x)" by (simp add: list_all_iff ws)
  with WsStar have "list_all isWhiteSpace (map lc y)" by simp
  then show ?case by (simp add: list_all_iff ws)
next
  case (Opt r)
  then show ?case by auto
next
  case (Alt a b)
  then show ?case by auto
next
  case (Cat a b)
  from Cat.prems obtain x1 x2 where x: "x = x1 @ x2" "x1 \<in> lang a" "x2 \<in> lang b" by auto
  let ?y1 = "take (length x1) y" and ?y2 = "drop (length x1) y"
  from Cat.prems(2) x(1) have "length y = length x1 + length x2"
    using map_eq_imp_length_eq by fastforce
  with Cat.prems(2) x(1) have "map lc ?y1 = map lc x1" "map lc ?y2 = map lc x2"
    by (simp_all add: take_map [symmetric] drop_map [symmetric])
  with x have "?y1 \<in> lang a" "?y2 \<in> lang b" using Cat.IH by blast+
  then have "\<exists>u v. y = u @ v \<and> u \<in> lang a \<and> v \<in> lang b"
    by (intro exI [of _ ?y1] exI [of _ ?y2]) simp
  then show ?case by simp
qed

section \<open>Counting calls\<close>

lemma callCount_emit [simp]: "callCount a (emit ty msg s) = callCount a s"
  by (simp add: callCount_def)

lemma callCount_settle [simp]:
  "callCount a (settle w b ok s) = callCount a s + (if a = b then 1 else 0)"
  by (simp add: callCount_def settle_def Let_def)

lemma callCount_calls [simp]: "callCount a (s\<lparr>calls := n\<rparr>) = callCount a s"
  by (simp add: callCount_def)

lemma addsD: "adds a k m \<Longrightarrow> m s = (r, s') \<Longrightarrow> callCount a s' \<le> callCount a s + k"
  unfolding adds_def by (metis snd_conv)



lemma adds_returns: "adds a 0 (returns x)"
  by (simp add: adds_def returns_def)

lemma adds_throws: "adds a 0 (throws e)"
  by (simp add: adds_def throws_def)

lemma adds_onStatus: "adds a 0 (onStatus ty msg)"
  by (simp add: adds_def onStatus_def)

lemma adds_call: "adds a (if a = b then 1 else 0) (call w b)"
  by (simp add: adds_def call_def split: option.splits)

lemma adds_call_other: "a \<noteq> b \<Longrightarrow> adds a 0 (call w b)"
  using adds_call [of a b w] by simp


text \<open>
  Sequencing adds the counts; the continuation only matters for the values the first
  action can return.
\<close>

lemma adds_bind_val:
  assumes "adds a k1 m" and "\<And>x s s1. m s = (Inr x, s1) \<Longrightarrow> adds a k2 (f x)"
  shows "adds a (k1 + k2) (bind_io m f)"
  unfolding adds_def
proof
  fix s
  obtain r s1 where ms: "m s = (r, s1)" by (cases "m s")
  have 1: "callCount a s1 \<le> callCount a s + k1"
    using assms(1) ms by (rule addsD)
  show "callCount a (snd (bind_io m f s)) \<le> callCount a s + (k1 + k2)"
  proof (cases r)
    case (Inl e)
    then show ?thesis using ms 1 by (simp add: bind_io_def)
  next
    case (Inr x)
    with ms have "adds a k2 (f x)" using assms(2) by blast
    then have "callCount a (snd (f x s1)) \<le> callCount a s1 + k2"
      unfolding adds_def by blast
    then show ?thesis using ms 1 Inr by (simp add: bind_io_def)
  qed
qed

lemma adds_bind:
  assumes "adds a k1 m" and "\<And>x. adds a k2 (f x)"
  shows "adds a (k1 + k2) (bind_io m f)"
  using assms by (intro adds_bind_val) auto

lemma adds_catch:
  assumes "adds a k1 m" and "\<And>e. adds a k2 (h e)"
  shows "adds a (k1 + k2) (catch_io m h)"
  unfolding adds_def
proof
  fix s
  obtain r s1 where ms: "m s = (r, s1)" by (cases "m s")
  have 1: "callCount a s1 \<le> callCount a s + k1"
    using assms(1) ms by (rule addsD)
  show "callCount a (snd (catch_io m h s)) \<le> callCount a s + (k1 + k2)"
  proof (cases r)
    case (Inr x)
    then show ?thesis using ms 1 by (simp add: catch_io_def)
  next
    case (Inl e)
    have "callCount a (snd (h e s1)) \<le> callCount a s1 + k2"
      using assms(2) unfolding adds_def by blast
    then show ?thesis using ms 1 Inl by (simp add: catch_io_def)
  qed
qed

lemma adds0_bind: "adds a 0 m \<Longrightarrow> (\<And>x. adds a 0 (f x)) \<Longrightarrow> adds a 0 (bind_io m f)"
  using adds_bind [of a 0 m 0 f] by simp



lemma adds0_catch: "adds a 0 m \<Longrightarrow> (\<And>e. adds a 0 (h e)) \<Longrightarrow> adds a 0 (catch_io m h)"
  using adds_catch [of a 0 m 0 h] by simp


lemma adds0_query: "a \<noteq> b \<Longrightarrow> adds a 0 (query w b v)"
  unfolding query_def by (intro adds0_bind adds_call_other adds_returns)


lemma adds_if: "adds a k m1 \<Longrightarrow> adds a k m2 \<Longrightarrow> adds a k (if c then m1 else m2)"
  by simp

lemma adds_case_option:
  "adds a k m1 \<Longrightarrow> (\<And>x. adds a k (m2 x)) \<Longrightarrow> adds a k (case v of None \<Rightarrow> m1 | Some x \<Rightarrow> m2 x)"
  by (cases v) simp_all

lemmas adds0 = adds0_bind adds0_catch adds0_query adds_call_other adds_returns adds_throws
  adds_onStatus adds_if adds_case_option

text \<open>Which part of an attempt issues which of the calls counted.\<close>

lemma adds0_launch: "tracked cfg a \<Longrightarrow> adds a 0 (launch cfg w)"
  unfolding launch_def tracked_def by (auto intro!: adds0)

lemma adds0_logIn: "tracked cfg a \<Longrightarrow> adds a 0 (logIn cfg w)"
  unfolding logIn_def tracked_def by (auto intro!: adds0)

lemma adds0_findExactDay: "tracked cfg a \<Longrightarrow> adds a 0 (findExactDay w day els)"
  by (induction els) (auto simp: tracked_def intro!: adds0)

lemma adds0_fallback:
  "tracked cfg a \<Longrightarrow>
   adds a 0
     (if dateEl = None then
        (let targetDay = getDate (targetDate cfg @ ''T12:00:00'') in
         bind_io (query w (QueryAll (DaySel (String targetDay))) (dayElements v))
           (findExactDay w (String targetDay)))
      else returns dateEl)"
  by (auto simp: Let_def tracked_def intro!: adds0 adds0_findExactDay [of cfg])


lemma adds0_lookupDate:
  "tracked cfg a \<Longrightarrow> a \<noteq> Query (DateSel (targetDate cfg)) \<Longrightarrow> adds a 0 (lookupDate cfg w v)"
  unfolding lookupDate_def
  by (intro adds0_bind adds0_query adds0_fallback) simp_all

lemma adds0_selectDate:
  "tracked cfg a \<Longrightarrow> a \<noteq> ElClick (DateSel (targetDate cfg)) \<Longrightarrow> adds a 0 (selectDate cfg w el)"
  unfolding selectDate_def Let_def tracked_def by (auto intro!: adds0)


lemma adds0_nextMonth: "tracked cfg a \<Longrightarrow> a \<noteq> ElClick NextButtonSel \<Longrightarrow> adds a 0 (nextMonth w v)"
  unfolding nextMonth_def tracked_def by (auto intro!: adds0)




section \<open>The calendar loop\<close>



lemma adds0_calendarLoop_confirm:
  "adds (ElClick ConfirmButtonSel) 0 (calendarLoop cfg w attempts)"
proof (induction cfg w attempts rule: calendarLoop.induct)
  case (1 cfg w attempts)
  let ?a = "ElClick ConfirmButtonSel"
  have tr: "tracked cfg ?a" by (simp add: tracked_def)
  show ?case
  proof (cases "attempts < maxAttempts")
    case False
    then show ?thesis by (simp add: calendarLoop_done adds_returns)
  next
    case True
    have IH: "adds ?a 0 (calendarLoop cfg w (attempts + 1))"
      using "1.IH" True by simp
    show ?thesis
      unfolding calendarLoop_step [OF True]
      by (intro adds0_bind adds0_lookupDate [OF tr] adds_case_option IH
          adds0_selectDate [OF tr] adds0_nextMonth [OF tr]) simp_all
  qed
qed



lemma selectDate_Some: "selectDate cfg w el s = (Inr (Some r), s') \<Longrightarrow> r = soldOut"
  unfolding selectDate_def Let_def
  by (auto elim!: bind_io_InrE dest!: returns_InrD split: if_splits)

text \<open>The only result the function returns from inside the loop is the sold-out one.\<close>

lemma calendarLoop_Some: "calendarLoop cfg w attempts s = (Inr (Some r), s') \<Longrightarrow> r = soldOut"
proof (induction cfg w attempts arbitrary: s rule: calendarLoop.induct)
  case (1 cfg w attempts)
  show ?case
  proof (cases "attempts < maxAttempts")
    case False
    with "1.prems" show ?thesis by (simp add: calendarLoop_done returns_def)
  next
    case True
    from "1.prems" obtain dateEl s1 where
      rest: "(case dateEl of
                Some el \<Rightarrow> selectDate cfg w el
              | None \<Rightarrow> bind_io (nextMonth w (calendar w attempts))
                         (\<lambda>_. calendarLoop cfg w (attempts + 1))) s1 = (Inr (Some r), s')"
      unfolding calendarLoop_step [OF True] by (elim bind_io_InrE) blast
    show ?thesis
    proof (cases dateEl)
      case (Some el)
      with rest show ?thesis by (auto dest: selectDate_Some)
    next
      case None
      with rest obtain s2 where "calendarLoop cfg w (attempts + 1) s2 = (Inr (Some r), s')"
        by (auto elim!: bind_io_InrE)
      then show ?thesis using "1.IH" [OF True] by blast
    qed
  qed
qed


subsection \<open>When every call resolves\<close>

lemma selectDate_ok:
  "\<forall>n. failure w n = None \<Longrightarrow> \<exists>x. fst (selectDate cfg w el s) = Inr x"
  by (simp add: selectDate_def bind_io_def query_ok call_ok returns_def onStatus_def Let_def)

lemma nextMonth_ok: "\<forall>n. failure w n = None \<Longrightarrow> fst (nextMonth w v s) = Inr ()"
  by (simp add: nextMonth_def bind_io_def query_ok call_ok returns_def)

lemma calendarLoop_ok:
  "\<forall>n. failure w n = None \<Longrightarrow> \<exists>x. fst (calendarLoop cfg w attempts s) = Inr x"
proof (induction cfg w attempts arbitrary: s rule: calendarLoop.induct)
  case (1 cfg w attempts)
  show ?case
  proof (cases "attempts < maxAttempts")
    case False
    then show ?thesis by (simp add: calendarLoop_done returns_def)
  next
    case True
    let ?v = "calendar w attempts"
    obtain dateEl s1 where look: "lookupDate cfg w ?v s = (Inr dateEl, s1)"
      using lookupDate_ok [OF "1.prems", of cfg ?v s] by (cases "lookupDate cfg w ?v s") auto
    show ?thesis
    proof (cases dateEl)
      case (Some el)
      have "calendarLoop cfg w attempts s = selectDate cfg w el s1"
        by (simp add: calendarLoop_step [OF True] bind_io_def look Some)
      then show ?thesis using selectDate_ok [OF "1.prems"] by simp
    next
      case None
      obtain s2 where nxt: "nextMonth w ?v s1 = (Inr (), s2)"
        using nextMonth_ok [OF "1.prems", of ?v s1] by (cases "nextMonth w ?v s1") auto
      have "calendarLoop cfg w attempts s = calendarLoop cfg w (attempts + 1) s2"
        by (simp add: calendarLoop_step [OF True] bind_io_def look None nxt)
      then show ?thesis using "1.IH" [OF True "1.prems"] by simp
    qed
  qed
qed

section \<open>The whole attempt\<close>

subsection \<open>When the attempt books\<close>


lemma test_successPattern_empty: "\<not> test successPattern []"
  by (simp add: successPattern_def test.simps)




lemma catch_rethrow_InrD:
  "catch_io m (\<lambda>err. bind_io c (\<lambda>_. throws err)) s = (Inr r, s') \<Longrightarrow> m s = (Inr r, s')"
  by (cases "m s") (auto simp: catch_io_def bind_io_def throws_def split: sum.splits prod.splits)



subsection \<open>The calls of the attempt\<close>



subsection \<open>The confirm step\<close>

text \<open>
  An attempt that clicks the confirm button and returns a result returns
  \<open>booked: true\<close> when it read a text that matches the pattern of line 257, and
  \<open>booked: false\<close> otherwise. No call before the confirm step clicks that button.
\<close>

lemma readAfterConfirm_emit [simp]: "readAfterConfirm (emit ty msg s) = readAfterConfirm s"
  by (simp add: readAfterConfirm_def emit_def)

lemma readAfterConfirm_settle [simp]:
  "readAfterConfirm (settle w a ok s) =
     (if a = ElClick ConfirmButtonSel \<and> ok then False
      else (a = BodyInnerText \<and> ok) \<or> readAfterConfirm s)"
  by (auto simp: readAfterConfirm_def settle_def Let_def)

lemma calls_settle [simp]: "calls (settle w a ok s) = Suc (calls s)"
  by (simp add: settle_def Let_def)

lemma decidesI_adds0: "adds (ElClick ConfirmButtonSel) 0 m \<Longrightarrow> decides w m"
  unfolding decides_def by (auto dest: addsD)

lemma decides_bind:
  assumes "adds (ElClick ConfirmButtonSel) 0 m" and "\<And>x. decides w (f x)"
  shows "decides w (bind_io m f)"
  unfolding decides_def
proof (intro allI impI)
  fix s r s'
  assume h: "bind_io m f s = (Inr r, s')
    \<and> callCount (ElClick ConfirmButtonSel) s < callCount (ElClick ConfirmButtonSel) s'"
  then obtain x s1 where m: "m s = (Inr x, s1)" and f: "f x s1 = (Inr r, s')"
    by (auto elim: bind_io_InrE)
  from assms(1) m have "callCount (ElClick ConfirmButtonSel) s1 \<le> callCount (ElClick ConfirmButtonSel) s"
    by (auto dest: addsD)
  with h f assms(2) [of x] show "r = verdict w s'"
    unfolding decides_def by (meson le_less_trans)
qed

lemma decides_if: "decides w m1 \<Longrightarrow> decides w m2 \<Longrightarrow> decides w (if c then m1 else m2)"
  by simp

lemma decides_case_option:
  "decides w m1 \<Longrightarrow> (\<And>x. decides w (m2 x)) \<Longrightarrow> decides w (case v of None \<Rightarrow> m1 | Some x \<Rightarrow> m2 x)"
  by (cases v) simp_all

lemma decides_catch_rethrow:
  "decides w m \<Longrightarrow> decides w (catch_io m (\<lambda>err. bind_io c (\<lambda>_. throws err)))"
  unfolding decides_def by (metis catch_rethrow_InrD)

lemma decides_confirm:
  "decides w
     (bind_io (confirmBooking w) (\<lambda>returned.
        case returned of
          Some r \<Rightarrow> returns r
        | None \<Rightarrow>
            bind_io (onStatus Error msg) (\<lambda>_.
            bind_io (call w Close) (\<lambda>_.
            returns \<lparr>available = True, booked = False, status = None\<rparr>))))"
  unfolding decides_def verdict_def confirmBooking_def
  by (auto simp: bind_io_def call_def query_def catch_io_def returns_def onStatus_def
      test_successPattern_empty split: option.splits if_splits)


lemma decides_confirm_if:
  "decides w
     (bind_io (if confirmBtn then confirmBooking w else returns None) (\<lambda>returned.
        case returned of
          Some r \<Rightarrow> returns r
        | None \<Rightarrow>
            bind_io (onStatus Error msg) (\<lambda>_.
            bind_io (call w Close) (\<lambda>_.
            returns \<lparr>available = True, booked = False, status = None\<rparr>))))"
proof (cases confirmBtn)
  case True
  then show ?thesis using decides_confirm by simp
next
  case False
  then show ?thesis by (auto intro!: decidesI_adds0 adds0)
qed

lemma decides_bookSpot: "decides w (bookSpot cfg w)"
  unfolding bookSpot_def
  by (intro decides_bind decides_confirm_if adds0) simp_all

lemma decides_checkPageState: "decides w (checkPageState cfg w)"
  unfolding checkPageState_def
  by (intro decides_bind decides_if decides_bookSpot decidesI_adds0 adds0) simp_all

lemma decides_tryBlock: "decides w (tryBlock cfg w)"
  unfolding tryBlock_def
  by (intro decides_bind decides_case_option decides_checkPageState decidesI_adds0 adds0
      adds0_logIn [of cfg] adds0_calendarLoop_confirm)
    (simp_all add: tracked_def)

lemma decides_attempt:
  "decides w
     (bind_io (onStatus Checking msg) (\<lambda>_.
      bind_io (launch cfg w) (\<lambda>_.
      bind_io (call w NewContext) (\<lambda>_.
      bind_io (call w NewPage) (\<lambda>_.
      catch_io (tryBlock cfg w) (\<lambda>err.
        bind_io (call w Close) (\<lambda>_.
        throws err)))))))"
  by (intro decides_bind decides_catch_rethrow decides_tryBlock adds0 adds0_launch [of cfg])
    (simp_all add: tracked_def)

lemma checkAndBook_decides:
  assumes "checkAndBook cfg w s = (Inr r, s')"
    and "callCount (ElClick ConfirmButtonSel) s < callCount (ElClick ConfirmButtonSel) s'"
  shows "r = verdict w s'"
proof -
  from assms(2) have "callCount (ElClick ConfirmButtonSel) (s\<lparr>calls := 0\<rparr>)
      < callCount (ElClick ConfirmButtonSel) s'"
    by simp
  with assms(1) show ?thesis
    using decides_attempt [of w _ cfg] unfolding decides_def checkAndBook_def by blast
qed

text \<open>
  When \<^verbatim>\<open>browser.close()\<close> rejects after the confirmation was read, the attempt throws;
  the run reports an error, sleeps and polls again, and here the next attempt submits
  the booking a second time.
\<close>

lemma rejected_close_books_twice:
  "fst (startMonitor exampleConfig None [closeFailsWorld, bookingWorld] initialState)
     = Some \<lparr>monitor_booked = True\<rparr>
   \<and> callCount (ElClick ConfirmButtonSel)
        (snd (startMonitor exampleConfig None [closeFailsWorld, bookingWorld] initialState)) = 2"
  by (simp add: io_defs attempt_defs text_defs monitor_defs example_defs callCount_def)

subsection \<open>The attempt when every call resolves\<close>

lemma bind_call_ok:
  "\<forall>n. failure w n = None \<Longrightarrow> bind_io (call w a) f s = f () (settle w a True s)"
  by (simp add: bind_io_def call_ok)

lemma bind_query_ok:
  "\<forall>n. failure w n = None \<Longrightarrow> bind_io (query w a v) f s = f v (settle w a True s)"
  by (simp add: bind_io_def query_ok)

lemma bind_onStatus: "bind_io (onStatus ty msg) f s = f () (emit ty msg s)"
  by (simp add: bind_io_def onStatus_def)

lemma bind_returns: "bind_io (returns x) f s = f x s"
  by (simp add: bind_io_def returns_def)

lemma bind_if:
  "bind_io (if c then m1 else m2) f s = (if c then bind_io m1 f s else bind_io m2 f s)"
  by simp

lemma bind_assoc: "bind_io (bind_io m g) f s = bind_io m (\<lambda>x. bind_io (g x) f) s"
  by (cases "m s") (auto simp: bind_io_def split: sum.splits)

lemma bind_catch_query_ok:
  "\<forall>n. failure w n = None \<Longrightarrow>
   bind_io (catch_io (query w a v) h) f s = f v (settle w a True s)"
  by (simp add: bind_io_def catch_io_def query_ok)

lemma catch_query_ok:
  "\<forall>n. failure w n = None \<Longrightarrow> catch_io (query w a v) h s = (Inr v, settle w a True s)"
  by (simp add: catch_io_def query_ok)

lemma launch_ok:
  "\<forall>n. failure w n = None \<Longrightarrow>
   launch cfg w s =
     (Inr (), settle w (Launch (if truthy (chromiumPath cfg) then chromiumPath cfg else None)) True s)"
  by (simp add: launch_def catch_io_def call_ok)

lemma logIn_ok: "\<forall>n. failure w n = None \<Longrightarrow> fst (logIn cfg w s) = Inr ()"
  by (simp add: logIn_def bind_io_def query_ok call_ok returns_def onStatus_def)

text \<open>The result of the scan of the page and of the booking, and whether confirm was clicked.\<close>

lemma checkPageState_ok:
  assumes "\<forall>n. failure w n = None"
  shows "fst (checkPageState cfg w s) =
           Inr (if list_ex (\<lambda>pattern. test pattern (pageText w)) soldOutPatterns then soldOut
                else if \<not> bookButton w then
                  \<lparr>available = False, booked = False, status = Some ''not_found''\<rparr>
                else if confirmButton w \<and> test successPattern (successText w) then
                  \<lparr>available = True, booked = True, status = None\<rparr>
                else \<lparr>available = True, booked = False, status = None\<rparr>)"
  using assms
  by (simp add: checkPageState_def bookSpot_def confirmBooking_def bind_call_ok bind_query_ok
      bind_onStatus bind_returns bind_if bind_assoc bind_catch_query_ok call_ok returns_def
      onStatus_def)

lemma checkPageState_confirm_count:
  assumes "\<forall>n. failure w n = None"
  shows "callCount (ElClick ConfirmButtonSel) (snd (checkPageState cfg w s)) =
           callCount (ElClick ConfirmButtonSel) s +
             (if \<not> list_ex (\<lambda>pattern. test pattern (pageText w)) soldOutPatterns
                 \<and> bookButton w \<and> confirmButton w then 1 else 0)"
  using assms
  by (simp add: checkPageState_def bookSpot_def confirmBooking_def bind_call_ok bind_query_ok
      bind_onStatus bind_returns bind_if bind_assoc bind_catch_query_ok call_ok returns_def
      onStatus_def)

text \<open>
  When every call resolves, the attempt goes through the calendar loop, which clicks no
  confirm button, and its result is the one the loop returned or else that of the state
  of the page.
\<close>

lemma tryBlock_ok:
  assumes ok: "\<forall>n. failure w n = None"
  obtains s2 x s3 where "calendarLoop cfg w 0 s2 = (Inr x, s3)"
    and "callCount (ElClick ConfirmButtonSel) s3 \<le> callCount (ElClick ConfirmButtonSel) s"
    and "tryBlock cfg w s =
           (case x of Some r \<Rightarrow> (Inr r, s3) | None \<Rightarrow> checkPageState cfg w s3)"
proof -
  let ?c = "ElClick ConfirmButtonSel"
  have tr: "tracked cfg ?c" by (simp add: tracked_def)
  let ?sB = "settle w (WaitForTimeout 2000) True
     (settle w (Goto ''https://reserve.altaparking.com'') True s)"
  obtain sC where login: "logIn cfg w ?sB = (Inr (), sC)"
    using logIn_ok [OF ok, of cfg ?sB] by (cases "logIn cfg w ?sB") auto
  let ?sD = "emit Checking ''Looking for target date...'' sC"
  obtain x s3 where loop: "calendarLoop cfg w 0 ?sD = (Inr x, s3)"
    using calendarLoop_ok [OF ok, of cfg 0 ?sD] by (cases "calendarLoop cfg w 0 ?sD") auto
  have cC: "callCount ?c sC \<le> callCount ?c ?sB"
    using addsD [OF adds0_logIn [OF tr] login] by simp
  have c3: "callCount ?c s3 \<le> callCount ?c ?sD"
    using addsD [OF adds0_calendarLoop_confirm loop] by simp
  have count: "callCount ?c s3 \<le> callCount ?c s"
    using cC c3 by simp
  have "tryBlock cfg w s =
      (case x of Some r \<Rightarrow> (Inr r, s3) | None \<Rightarrow> checkPageState cfg w s3)"
    by (simp add: tryBlock_def bind_call_ok [OF ok] bind_onStatus bind_io_def [of "logIn cfg w"]
        bind_io_def [of "calendarLoop cfg w 0"] login loop returns_def split: option.splits)
  with loop count show ?thesis by (rule that)
qed

lemma checkAndBook_ok:
  assumes ok: "\<forall>n. failure w n = None"
  obtains s2 x s3 where "calendarLoop cfg w 0 s2 = (Inr x, s3)"
    and "callCount (ElClick ConfirmButtonSel) s3 \<le> callCount (ElClick ConfirmButtonSel) s"
    and "checkAndBook cfg w s =
           (case x of Some r \<Rightarrow> (Inr r, s3) | None \<Rightarrow> checkPageState cfg w s3)"
proof -
  let ?c = "ElClick ConfirmButtonSel"
  define sA where "sA = settle w NewPage True (settle w NewContext True
     (settle w (Launch (if truthy (chromiumPath cfg) then chromiumPath cfg else None)) True
       (emit Checking (''Checking availability for '' @ targetDate cfg @ ''...'')
          (s\<lparr>calls := 0\<rparr>))))"
  have cA: "callCount ?c sA = callCount ?c s" by (simp add: sA_def)
  have start: "checkAndBook cfg w s =
      catch_io (tryBlock cfg w) (\<lambda>err. bind_io (call w Close) (\<lambda>_. throws err)) sA"
    by (simp add: checkAndBook_def bind_onStatus bind_call_ok [OF ok]
        bind_io_def [of "launch cfg w"] launch_ok [OF ok] sA_def split del: if_split)
  obtain s2 x s3 where loop: "calendarLoop cfg w 0 s2 = (Inr x, s3)"
    and count: "callCount ?c s3 \<le> callCount ?c sA"
    and tb: "tryBlock cfg w sA =
           (case x of Some r \<Rightarrow> (Inr r, s3) | None \<Rightarrow> checkPageState cfg w s3)"
    using tryBlock_ok [OF ok, of cfg sA] by blast
  obtain r s4 where page: "checkPageState cfg w s3 = (Inr r, s4)"
    using checkPageState_ok [OF ok, of cfg s3] by (cases "checkPageState cfg w s3") auto
  have "\<exists>r s4. tryBlock cfg w sA = (Inr r, s4)"
    using tb page by (cases x) simp_all
  then obtain r' s4' where res: "tryBlock cfg w sA = (Inr r', s4')" by blast
  have "checkAndBook cfg w s = tryBlock cfg w sA"
    using start res by (simp add: catch_io_def)
  with tb have "checkAndBook cfg w s =
      (case x of Some r \<Rightarrow> (Inr r, s3) | None \<Rightarrow> checkPageState cfg w s3)"
    by simp
  moreover have "callCount ?c s3 \<le> callCount ?c s" using count cA by simp
  ultimately show ?thesis using loop that by blast
qed

section \<open>Calls of the handler\<close>

lemmas main_defs = handleStartMonitor_def abort_def runOf_def getChromiumPath_def Let_def

text \<open>
  The callback of a run clears the variable also when it holds the controller of a later
  run. After the two calls at 0 and 1000, the first run returns at 2110 and its callback
  clears the variable, which holds the controller of the second run; a third call of the
  handler, at 3000, then finds no controller and leaves the signal of the second run as
  it is.
\<close>

lemma first_run_returns_at_2110:
  "fst (runOf twoStarts (started twoStarts ! 0) [soldOutWorld])
     = Some \<lparr>monitor_booked = False\<rparr>
   \<and> now (snd (runOf twoStarts (started twoStarts ! 0) [soldOutWorld])) = 2110"
  by (simp add: example_defs main_defs io_defs attempt_defs text_defs monitor_defs)

lemma settled_run_clears_later_controller:
  "monitorAbortController twoStarts = Some 1
   \<and> monitorAbortController (runSettled 2110 \<lparr>monitor_booked = False\<rparr> twoStarts) = None
   \<and> abortedAt (handleStartMonitor 3000 ''/app'' exampleForm
         (runSettled 2110 \<lparr>monitor_booked = False\<rparr> twoStarts)) 1 = None"
  by (simp add: twoStarts_def idleMain_def main_defs runSettled_def)

section \<open>Closing the browser\<close>

text \<open>
  Inside the \<^verbatim>\<open>try\<close> block the browser is closed on every path: the last call made
  before \<^verbatim>\<open>checkAndBook\<close> returns or throws from there is \<^verbatim>\<open>browser.close()\<close>.
  (The calls that create the context and the page come before the block.)
\<close>

lemma call_InrD: "call w a s = (Inr u, s') \<Longrightarrow> s' = settle w a True s"
  by (auto simp: call_def split: option.splits)

lemma call_settles: "call w a s = (r, s') \<Longrightarrow> \<exists>ok. s' = settle w a ok s"
  by (auto simp: call_def split: option.splits)

lemma returns_state: "returns v s = (r, s') \<Longrightarrow> s' = s"
  by (simp add: returns_def)

lemma close_then_return:
  "bind_io (call w Close) (\<lambda>_. returns v) s = (Inr r, s') \<Longrightarrow> \<exists>s1. s' = settle w Close True s1"
  by (auto elim!: bind_io_InrE dest!: call_InrD returns_state)

lemma status_close_then_return:
  "bind_io (onStatus ty msg) (\<lambda>_. bind_io (call w Close) (\<lambda>_. returns v)) s = (Inr r, s')
   \<Longrightarrow> \<exists>s1. s' = settle w Close True s1"
  by (auto elim!: bind_io_InrE dest!: call_InrD returns_state)

lemma selectDate_Some_closed:
  assumes "selectDate cfg w el s = (Inr (Some r), s')"
  shows "\<exists>s1. s' = settle w Close True s1"
proof -
  from assms obtain isDisabled cls s1 where
    rest: "(let classList = (if truthy cls then the cls else []) in
            if truthy isDisabled \<or> str_includes classList ''disabled''
               \<or> str_includes classList ''sold-out''
            then
              bind_io (onStatus Checking (targetDate cfg @ '' found but SOLD OUT'')) (\<lambda>_.
              bind_io (call w Close) (\<lambda>_.
              returns (Some soldOut)))
            else
              bind_io (onStatus Checking (''Found '' @ targetDate cfg @ '' - selecting...'')) (\<lambda>_.
              bind_io (call w (ElClick (DateSel (targetDate cfg)))) (\<lambda>_.
              bind_io (call w (WaitForTimeout 2000)) (\<lambda>_.
              returns None)))) s1 = (Inr (Some r), s')"
    unfolding selectDate_def by (elim bind_io_InrE) blast
  let ?sold = "truthy isDisabled \<or> str_includes (if truthy cls then the cls else []) ''disabled''
       \<or> str_includes (if truthy cls then the cls else []) ''sold-out''"
  show ?thesis
  proof (cases ?sold)
    case True
    with rest show ?thesis by (simp add: Let_def status_close_then_return)
  next
    case False
    with rest show ?thesis
      by (auto simp: Let_def elim!: bind_io_InrE dest!: returns_InrD)
  qed
qed

lemma calendarLoop_Some_closed:
  "calendarLoop cfg w attempts s = (Inr (Some r), s') \<Longrightarrow> \<exists>s1. s' = settle w Close True s1"
proof (induction cfg w attempts arbitrary: s rule: calendarLoop.induct)
  case (1 cfg w attempts)
  show ?case
  proof (cases "attempts < maxAttempts")
    case False
    with "1.prems" show ?thesis by (simp add: calendarLoop_done returns_def)
  next
    case True
    from "1.prems" obtain dateEl s1 where
      rest: "(case dateEl of
                Some el \<Rightarrow> selectDate cfg w el
              | None \<Rightarrow> bind_io (nextMonth w (calendar w attempts))
                         (\<lambda>_. calendarLoop cfg w (attempts + 1))) s1 = (Inr (Some r), s')"
      unfolding calendarLoop_step [OF True] by (elim bind_io_InrE) blast
    show ?thesis
    proof (cases dateEl)
      case (Some el)
      with rest show ?thesis by (auto dest: selectDate_Some_closed)
    next
      case None
      with rest obtain s2 where "calendarLoop cfg w (attempts + 1) s2 = (Inr (Some r), s')"
        by (auto elim!: bind_io_InrE)
      then show ?thesis using "1.IH" [OF True] by blast
    qed
  qed
qed

lemma confirmBooking_Some_closed:
  assumes "confirmBooking w s = (Inr (Some r), s')"
  shows "\<exists>s1. s' = settle w Close True s1"
proof -
  from assms obtain successTxt s2 where
    r: "(if test successPattern successTxt then
           bind_io (call w Close) (\<lambda>_.
           returns (Some \<lparr>available = True, booked = True, status = None\<rparr>))
         else returns None) s2 = (Inr (Some r), s')"
    unfolding confirmBooking_def by (elim bind_io_InrE) blast
  show ?thesis
  proof (cases "test successPattern successTxt")
    case True
    with r show ?thesis by (simp add: close_then_return)
  next
    case False
    with r show ?thesis by (simp add: returns_def)
  qed
qed

lemma bookSpot_closed:
  assumes "bookSpot cfg w s = (Inr r, s')"
  shows "\<exists>s1. s' = settle w Close True s1"
proof -
  from assms obtain confirmBtn returned s2 s3 where
    c: "(if confirmBtn then confirmBooking w else returns None) s2 = (Inr returned, s3)" and
    r: "(case returned of
           Some r \<Rightarrow> returns r
         | None \<Rightarrow>
             bind_io (onStatus Error
                        ''Spot was available but auto-booking may have failed. Check manually!'') (\<lambda>_.
             bind_io (call w Close) (\<lambda>_.
             returns \<lparr>available = True, booked = False, status = None\<rparr>))) s3 = (Inr r, s')"
    unfolding bookSpot_def by (elim bind_io_InrE) blast
  show ?thesis
  proof (cases returned)
    case None
    with r show ?thesis by (simp add: status_close_then_return)
  next
    case (Some r')
    with c have "confirmBooking w s2 = (Inr (Some r'), s3)"
      by (cases confirmBtn) (simp_all add: returns_def)
    moreover from r Some have "s' = s3" by (simp add: returns_def)
    ultimately show ?thesis using confirmBooking_Some_closed by blast
  qed
qed

lemma checkPageState_closed:
  assumes "checkPageState cfg w s = (Inr r, s')"
  shows "\<exists>s1. s' = settle w Close True s1"
proof -
  from assms obtain pageTxt s1 where
    rest: "(if list_ex (\<lambda>pattern. test pattern pageTxt) soldOutPatterns then
              bind_io (onStatus Checking (targetDate cfg @ '': No parking available'')) (\<lambda>_.
              bind_io (call w Close) (\<lambda>_.
              returns soldOut))
            else
              bind_io (query w (Query BookButtonSel) (bookButton w)) (\<lambda>bookBtn.
              if bookBtn then bookSpot cfg w
              else
                bind_io (onStatus Checking (''No parking available for '' @ targetDate cfg)) (\<lambda>_.
                bind_io (call w Close) (\<lambda>_.
                returns \<lparr>available = False, booked = False, status = Some ''not_found''\<rparr>))))
           s1 = (Inr r, s')"
    unfolding checkPageState_def by (elim bind_io_InrE) blast
  show ?thesis
  proof (cases "list_ex (\<lambda>pattern. test pattern pageTxt) soldOutPatterns")
    case True
    with rest show ?thesis by (simp add: status_close_then_return)
  next
    case False
    with rest obtain bookBtn s3 where
      b: "(if bookBtn then bookSpot cfg w
           else
             bind_io (onStatus Checking (''No parking available for '' @ targetDate cfg)) (\<lambda>_.
             bind_io (call w Close) (\<lambda>_.
             returns \<lparr>available = False, booked = False, status = Some ''not_found''\<rparr>))) s3
          = (Inr r, s')"
      by (auto elim!: bind_io_InrE)
    show ?thesis
    proof (cases bookBtn)
      case True
      with b show ?thesis by (simp add: bookSpot_closed)
    next
      case False
      with b show ?thesis by (simp add: status_close_then_return)
    qed
  qed
qed

lemma tryBlock_closed:
  assumes "tryBlock cfg w s = (Inr r, s')"
  shows "\<exists>s1. s' = settle w Close True s1"
proof -
  from assms obtain returned s1 s2 where
    loop: "calendarLoop cfg w 0 s1 = (Inr returned, s2)" and
    rest: "(case returned of Some r \<Rightarrow> returns r | None \<Rightarrow> checkPageState cfg w) s2 = (Inr r, s')"
    unfolding tryBlock_def by (elim bind_io_InrE) blast
  show ?thesis
  proof (cases returned)
    case None
    with rest show ?thesis by (simp add: checkPageState_closed)
  next
    case (Some r')
    with rest have "s' = s2" by (simp add: returns_def)
    with loop Some show ?thesis using calendarLoop_Some_closed by blast
  qed
qed

lemma try_catch_closes:
  assumes "catch_io (tryBlock cfg w) (\<lambda>err. bind_io (call w Close) (\<lambda>_. throws err)) s = (res, s')"
  shows "\<exists>s1 ok. s' = settle w Close ok s1"
proof (cases "tryBlock cfg w s")
  case (Pair r s1)
  show ?thesis
  proof (cases r)
    case (Inr v)
    with Pair assms have "tryBlock cfg w s = (Inr v, s')" by (simp add: catch_io_def)
    then show ?thesis using tryBlock_closed by blast
  next
    case (Inl err)
    with Pair assms have "bind_io (call w Close) (\<lambda>_. throws err) s1 = (res, s')"
      by (simp add: catch_io_def)
    then have "\<exists>ok. s' = settle w Close ok s1"
      by (cases "call w Close s1")
        (auto simp: bind_io_def throws_def dest: call_settles split: sum.splits)
    then show ?thesis by blast
  qed
qed

section \<open>The claims\<close>

text \<open>
  C1. In every run, whatever number of attempts came before: when the run is still
  polling and the next attempt returns a result with \<open>booked\<close> true, the run sends the
  success status and returns \<open>booked: true\<close>, and the attempts that would follow
  (\<open>post\<close>) are never made: the trace ends with the success status.
\<close>

theorem booked_attempt_ends_run:
  assumes "startMonitor cfg signal pre s = (None, s1)"
    and "checkAndBook cfg w s1 = (Inr r, s2)"
    and "booked r"
  shows "startMonitor cfg signal (pre @ w # post) s =
           (Some \<lparr>monitor_booked = True\<rparr>,
            s2\<lparr>trace := trace s2 @
                 [(now s2,
                   Status Success (''Successfully booked parking for '' @ targetDate cfg @ ''!''))]\<rparr>)"
  using assms startMonitor_polling_not_aborted [OF assms(1)]
  by (simp add: startMonitor_append emit_def)

theorem booked_attempt_ends_run_witness:
  "fst (startMonitor exampleConfig None [] initialState) = None
   \<and> fst (checkAndBook exampleConfig bookingWorld
            (snd (startMonitor exampleConfig None [] initialState)))
       = Inr \<lparr>available = True, booked = True, status = None\<rparr>
   \<and> fst (startMonitor exampleConfig None ([] @ bookingWorld # [soldOutWorld]) initialState)
       = Some \<lparr>monitor_booked = True\<rparr>
   \<and> callCount (Launch None)
        (snd (startMonitor exampleConfig None ([] @ bookingWorld # [soldOutWorld]) initialState))
       = callCount (Launch None)
           (snd (checkAndBook exampleConfig bookingWorld
              (snd (startMonitor exampleConfig None [] initialState))))"
proof -
  let ?s1 = "snd (startMonitor exampleConfig None [] initialState)"
  let ?r = "\<lparr>available = True, booked = True, status = None\<rparr>"
  let ?s2 = "snd (checkAndBook exampleConfig bookingWorld ?s1)"
  have a: "fst (startMonitor exampleConfig None [] initialState) = None"
    by (simp add: monitor_defs example_defs)
  have b: "fst (checkAndBook exampleConfig bookingWorld ?s1) = Inr ?r"
    by (simp add: io_defs attempt_defs text_defs monitor_defs example_defs)
  have a': "startMonitor exampleConfig None [] initialState = (None, ?s1)"
    using a by (simp add: prod_eq_iff)
  have b': "checkAndBook exampleConfig bookingWorld ?s1 = (Inr ?r, ?s2)"
    using b by (simp add: prod_eq_iff)
  have c: "booked ?r" by simp
  show ?thesis
    using a b booked_attempt_ends_run [OF a' b' c, of "[soldOutWorld]"]
    by (simp add: callCount_def)
qed

text \<open>
  C2, where the code fails it. The calls that create the context and the page (lines
  119 and 120) stand between the launch and the \<^verbatim>\<open>try\<close> block whose
  \<^verbatim>\<open>catch\<close> closes the browser. In a world where the launch resolves and
  \<^verbatim>\<open>browser.newContext()\<close> rejects, \<^verbatim>\<open>checkAndBook\<close> throws with the browser
  launched and \<^verbatim>\<open>browser.close()\<close> never called.
\<close>

theorem context_failure_leaves_browser_open:
  "checkAndBook exampleConfig contextFailsWorld initialState =
     (Inl (JsError ''Target closed''),
      \<lparr>calls = 2, now = 20,
       trace = [(0, Status Checking ''Checking availability for 2025-01-15...''),
                (10, Call (Launch None) True),
                (20, Call NewContext False)]\<rparr>)"
  by (simp add: io_defs attempt_defs example_defs)

text \<open>
  C3, as the code has it. When one of the five required fields is the empty string,
  \<^verbatim>\<open>startMonitor\<close> sends one error status, which names the first such field in the order
  email, password, seasonPass, licensePlate, targetDate, and returns \<open>booked: false\<close>;
  nothing else is added to the trace, so no attempt is made and no browser is launched.
  (A field of white space only is not empty: see the counterexample.)
\<close>

theorem missing_field_stops_before_loop:
  assumes "email cfg = [] \<or> password cfg = [] \<or> seasonPass cfg = [] \<or> licensePlate cfg = []
           \<or> targetDate cfg = []"
  shows "startMonitor cfg signal ws s =
           (Some \<lparr>monitor_booked = False\<rparr>,
            s\<lparr>trace := trace s @
                [(now s, Status Error (''Missing required config: '' @
                   (if email cfg = [] then ''email''
                    else if password cfg = [] then ''password''
                    else if seasonPass cfg = [] then ''seasonPass''
                    else if licensePlate cfg = [] then ''licensePlate''
                    else ''targetDate'')))]\<rparr>)"
  using assms by (auto simp: startMonitor_def required_def emit_def)

theorem missing_field_stops_before_loop_witness:
  "password (exampleConfig\<lparr>password := []\<rparr>) = []
   \<and> startMonitor (exampleConfig\<lparr>password := []\<rparr>) None [bookingWorld] initialState =
       (Some \<lparr>monitor_booked = False\<rparr>,
        initialState\<lparr>trace := [(0, Status Error ''Missing required config: password'')]\<rparr>)"
  using missing_field_stops_before_loop
    [of "exampleConfig\<lparr>password := []\<rparr>" None "[bookingWorld]" initialState]
  by (simp add: example_defs)

text \<open>
  The claim C3 as it is written fails for a field of white space only: with an email of
  three spaces the run launches the browser, and here it even books.
\<close>

theorem blank_field_counterexample:
  "list_all isWhiteSpace (email blankEmailConfig)
   \<and> fst (startMonitor blankEmailConfig None [bookingWorld] initialState)
       = Some \<lparr>monitor_booked = True\<rparr>
   \<and> callCount (Launch None)
        (snd (startMonitor blankEmailConfig None [bookingWorld] initialState)) = 1"
  by (simp add: io_defs attempt_defs text_defs monitor_defs example_defs callCount_def)

text \<open>
  C4. A run is sleeping after an attempt that did not book (it returned a result with
  \<open>booked\<close> false, or threw): the attempt ended at \<open>now s2\<close>, before the abort, and
  the abort comes at \<open>a\<close>, before the timer of the wait runs out. Then the wait ends at
  \<open>a\<close> and not when the timer would have run out, the run sends its stop status at
  \<open>a\<close> and returns \<open>booked: false\<close>, and the attempts that would follow (\<open>post\<close>)
  are never made. The timer runs out after the poll interval when that is between 1 and
  2147483647 milliseconds. Time is the clock of the model: the delay between the abort
  and the end of the wait is zero there.
\<close>

theorem abort_during_sleep:
  assumes "startMonitor cfg (Some a) pre s = (None, s1)"
    and "checkAndBook cfg w s1 = (res, s2)"
    and "case res of Inr r \<Rightarrow> \<not> booked r | Inl err \<Rightarrow> True"
    and "now s2 < a" and "a < now s2 + setTimeoutDelay (intervalMs cfg)"
  shows "startMonitor cfg (Some a) (pre @ w # post) s =
           (Some \<lparr>monitor_booked = False\<rparr>,
            s2\<lparr>now := a,
               trace := trace s2 @
                 [(now s2,
                   case res of
                     Inr r \<Rightarrow>
                       Status Monitoring
                         (''Next check in '' @ minutes (intervalMs cfg) @ '' minute(s)...'')
                   | Inl err \<Rightarrow> Status Error (''Error during check: '' @ message err)),
                  (a, Status Monitoring ''Monitor stopped'')]\<rparr>)"
  using assms startMonitor_polling_not_aborted [OF assms(1)]
  by (cases post)
    (auto simp: startMonitor_append emit_def monitorStopped_def waitWithAbort_def min_def
      split: sum.splits)

theorem abort_during_sleep_witness:
  "fst (startMonitor exampleConfig (Some 5000) [] initialState) = None
   \<and> fst (checkAndBook exampleConfig soldOutWorld
            (snd (startMonitor exampleConfig (Some 5000) [] initialState))) = Inr soldOut
   \<and> \<not> booked soldOut
   \<and> now (snd (checkAndBook exampleConfig soldOutWorld
            (snd (startMonitor exampleConfig (Some 5000) [] initialState)))) = 2110
   \<and> (2110 :: nat) < 5000 \<and> (5000 :: nat) < 2110 + setTimeoutDelay (intervalMs exampleConfig)
   \<and> setTimeoutDelay (intervalMs exampleConfig) = 60000
   \<and> fst (startMonitor exampleConfig (Some 5000) ([] @ soldOutWorld # [bookingWorld])
            initialState) = Some \<lparr>monitor_booked = False\<rparr>
   \<and> now (snd (startMonitor exampleConfig (Some 5000) ([] @ soldOutWorld # [bookingWorld])
            initialState)) = 5000"
proof -
  let ?s1 = "snd (startMonitor exampleConfig (Some 5000) [] initialState)"
  let ?s2 = "snd (checkAndBook exampleConfig soldOutWorld ?s1)"
  have a: "fst (startMonitor exampleConfig (Some 5000) [] initialState) = None"
    by (simp add: monitor_defs example_defs)
  have b: "fst (checkAndBook exampleConfig soldOutWorld ?s1) = Inr soldOut"
    by (simp add: io_defs attempt_defs text_defs monitor_defs example_defs)
  have t: "now ?s2 = 2110"
    by (simp add: io_defs attempt_defs text_defs monitor_defs example_defs)
  have a': "startMonitor exampleConfig (Some 5000) [] initialState = (None, ?s1)"
    using a by (simp add: prod_eq_iff)
  have b': "checkAndBook exampleConfig soldOutWorld ?s1 = (Inr soldOut, ?s2)"
    using b by (simp add: prod_eq_iff)
  have c: "case (Inr soldOut :: js_error + check_result) of
             Inr r \<Rightarrow> \<not> booked r | Inl err \<Rightarrow> True"
    by (simp add: soldOut_def)
  have d: "now ?s2 < 5000" using t by simp
  have e: "5000 < now ?s2 + setTimeoutDelay (intervalMs exampleConfig)"
    using t by (simp add: exampleConfig_def setTimeoutDelay_def)
  show ?thesis
    using a b t abort_during_sleep [OF a' b' c d e, of "[bookingWorld]"]
    by (simp add: soldOut_def exampleConfig_def setTimeoutDelay_def)
qed

text \<open>
  C5, as the code has it. A controller \<open>c\<close> is in the variable and its signal is not yet
  aborted when the handler is called at time \<open>t\<close>. The call aborts the signal of \<open>c\<close>
  at \<open>t\<close>, puts a new controller in the variable, whose signal it does not abort, and
  starts the new run at the same time \<open>t\<close>: it does not wait. The run of \<open>c\<close> begins no
  attempt from \<open>t\<close> on: whenever it is still polling, about to begin an attempt,
  the time is before \<open>t\<close>. An attempt of that run that is in flight at \<open>t\<close> goes on
  beside the new run: see the counterexample.
\<close>

theorem second_start_aborts_without_waiting:
  assumes "monitorAbortController m = Some c" and "abortedAt m c = None" and "c < created m"
  shows "abortedAt (handleStartMonitor t rp config m) c = Some t
       \<and> monitorAbortController (handleStartMonitor t rp config m) = Some (created m)
       \<and> abortedAt (handleStartMonitor t rp config m) (created m) = abortedAt m (created m)
       \<and> (\<exists>monitorConfig. started (handleStartMonitor t rp config m)
             = started m @ [(created m, monitorConfig, t)])
       \<and> (runOf (handleStartMonitor t rp config m) (c, cfg, t0) pre = (None, s1) \<longrightarrow> now s1 < t)"
proof -
  let ?m' = "handleStartMonitor t rp config m"
  have ab: "abortedAt ?m' c = Some t"
    using assms by (simp add: main_defs)
  have var: "monitorAbortController ?m' = Some (created m)"
    using assms by (simp add: main_defs)
  have fresh: "abortedAt ?m' (created m) = abortedAt m (created m)"
    using assms by (simp add: main_defs)
  have run: "\<exists>monitorConfig. started ?m' = started m @ [(created m, monitorConfig, t)]"
    using assms by (simp add: main_defs)
  have before: "now s1 < t" if "runOf ?m' (c, cfg, t0) pre = (None, s1)"
  proof -
    from that ab have
      "startMonitor cfg (Some t) pre \<lparr>calls = 0, now = t0, trace = []\<rparr> = (None, s1)"
      by (simp add: runOf_def)
    then have "\<not> aborted (Some t) (now s1)" by (rule startMonitor_polling_not_aborted)
    then show ?thesis by simp
  qed
  from ab var fresh run before show ?thesis by blast
qed

theorem second_start_aborts_without_waiting_witness:
  "monitorAbortController (handleStartMonitor 0 ''/app'' exampleForm idleMain) = Some 0
   \<and> abortedAt (handleStartMonitor 0 ''/app'' exampleForm idleMain) 0 = None
   \<and> 0 < created (handleStartMonitor 0 ''/app'' exampleForm idleMain)
   \<and> abortedAt twoStarts 0 = Some 1000
   \<and> monitorAbortController twoStarts = Some 1
   \<and> abortedAt twoStarts 1 = None
   \<and> fst (runOf twoStarts (0, exampleConfig, 0) []) = None
   \<and> now (snd (runOf twoStarts (0, exampleConfig, 0) [])) < 1000"
proof -
  let ?m = "handleStartMonitor 0 ''/app'' exampleForm idleMain"
  let ?run = "runOf twoStarts (0, exampleConfig, 0) []"
  have a: "monitorAbortController ?m = Some 0" by (simp add: main_defs idleMain_def)
  have b: "abortedAt ?m 0 = None" by (simp add: main_defs idleMain_def)
  have c: "0 < created ?m" by (simp add: main_defs idleMain_def)
  have d: "created ?m = 1" by (simp add: main_defs idleMain_def)
  have e: "abortedAt ?m 1 = None" by (simp add: main_defs idleMain_def)
  have polling: "fst ?run = None"
    by (simp add: twoStarts_def main_defs idleMain_def monitor_defs exampleConfig_def)
  then have run: "runOf (handleStartMonitor 1000 ''/app'' exampleForm ?m) (0, exampleConfig, 0) []
      = (None, snd ?run)"
    by (simp add: twoStarts_def prod_eq_iff)
  note fact = second_start_aborts_without_waiting [OF a b c, of 1000 "''/app''" exampleForm
      exampleConfig 0 "[]" "snd ?run"]
  from fact run have t: "now (snd ?run) < 1000" by blast
  from fact have x: "abortedAt twoStarts 0 = Some 1000" by (simp add: twoStarts_def)
  from fact d have y: "monitorAbortController twoStarts = Some 1" by (simp add: twoStarts_def)
  from fact d e have z: "abortedAt twoStarts 1 = None" by (simp add: twoStarts_def)
  from a b c x y z polling t show ?thesis by blast
qed

text \<open>
  The claim C5 as it is written fails: the second call does not wait for the first run.
  With the two calls at the times 0 and 1000, the first run is aborted at 1000 while its
  attempt is in flight, with a browser launched at 10 that it closes at 2110; the second
  run launches its browser at 1010. At that time both sessions are open.
\<close>

theorem concurrent_sessions_counterexample:
  "map (\<lambda>(c, monitorConfig, t). (c, t)) (started twoStarts) = [(0, 0), (1, 1000)]
   \<and> abortedAt twoStarts 0 = Some 1000 \<and> abortedAt twoStarts 1 = None
   \<and> sessionOpen 1010 (snd (runOf twoStarts (started twoStarts ! 0) [soldOutWorld]))
   \<and> sessionOpen 1010 (snd (runOf twoStarts (started twoStarts ! 1) [soldOutWorld]))"
  by (simp add: example_defs main_defs io_defs attempt_defs text_defs monitor_defs
      sessionOpen_def)

text \<open>
  C6, as the code has it. An attempt whose calls all resolve and whose page text is, up
  to the case of its letters, a text that holds anywhere a string of the language of one
  of the five patterns (\<^verbatim>\<open>\s*\<close> is any run of white space) returns the sold-out
  result; one pattern is enough. The hyphenated \<open>sold-out\<close> is in none of the
  languages: see the counterexample.
\<close>

theorem sold_out_phrase_classifies:
  assumes "\<forall>n. failure w n = None"
    and "p \<in> set soldOutPatterns" and "x \<in> lang p"
    and "map lc (pageText w) = map lc (pre @ x @ post)"
  shows "fst (checkAndBook cfg w s) = Inr soldOut"
proof -
  let ?t = "pageText w"
  let ?x = "take (length x) (drop (length pre) ?t)"
  have len: "length ?t = length pre + length x + length post"
    using assms(4) map_eq_imp_length_eq by fastforce
  have "map lc ?x = take (length x) (drop (length pre) (map lc ?t))"
    by (simp add: take_map drop_map)
  also have "\<dots> = map lc x" unfolding assms(4) by simp
  finally have "?x \<in> lang p" using assms(3) lang_case_insensitive by blast
  moreover have "?t = take (length pre) ?t @ ?x @ drop (length pre + length x) ?t"
    by (metis add.commute append_take_drop_id drop_drop)
  ultimately have "test p ?t" using test_iff by blast
  with assms(2) have scan: "list_ex (\<lambda>pattern. test pattern (pageText w)) soldOutPatterns"
    by (auto simp: list_ex_iff)
  from assms(1) obtain s2 y s3 where loop: "calendarLoop cfg w 0 s2 = (Inr y, s3)"
    and res: "checkAndBook cfg w s =
           (case y of Some r \<Rightarrow> (Inr r, s3) | None \<Rightarrow> checkPageState cfg w s3)"
    by (rule checkAndBook_ok)
  show ?thesis
  proof (cases y)
    case None
    with res scan show ?thesis by (simp add: checkPageState_ok [OF assms(1)])
  next
    case (Some r)
    with loop have "r = soldOut" by (auto dest: calendarLoop_Some)
    with res Some show ?thesis by simp
  qed
qed

theorem sold_out_phrase_classifies_witness:
  "(\<forall>n. failure fullyBookedWorld n = None)
   \<and> soldOutPatterns ! 2 \<in> set soldOutPatterns
   \<and> ''fully booked'' \<in> lang (soldOutPatterns ! 2)
   \<and> pageText fullyBookedWorld = ''Sorry, FULLY BOOKED today''
   \<and> map lc ''Sorry, FULLY BOOKED today'' = map lc (''sorry, '' @ ''fully booked'' @ '' today'')
   \<and> map lc ''Sorry, Fully Booked today'' = map lc (''sorry, '' @ ''fully booked'' @ '' today'')
   \<and> fst (checkAndBook exampleConfig fullyBookedWorld initialState) = Inr soldOut
   \<and> fst (checkAndBook exampleConfig
             (fullyBookedWorld\<lparr>pageText := ''Sorry, Fully Booked today''\<rparr>) initialState)
       = Inr soldOut"
proof -
  let ?w2 = "fullyBookedWorld\<lparr>pageText := ''Sorry, Fully Booked today''\<rparr>"
  have a: "\<forall>n. failure fullyBookedWorld n = None"
    by (simp add: fullyBookedWorld_def bookingWorld_def)
  have a2: "\<forall>n. failure ?w2 n = None"
    by (simp add: fullyBookedWorld_def bookingWorld_def)
  have b: "soldOutPatterns ! 2 \<in> set soldOutPatterns" by (simp add: soldOutPatterns_def)
  have c: "''fully booked'' \<in> lang (soldOutPatterns ! 2)"
    unfolding lang_iff_rems by (simp add: soldOutPatterns_def isWhiteSpace_def)
  have t: "pageText fullyBookedWorld = ''Sorry, FULLY BOOKED today''"
    by (simp add: fullyBookedWorld_def)
  have d0: "map lc ''Sorry, FULLY BOOKED today'' = map lc (''sorry, '' @ ''fully booked'' @ '' today'')"
    by simp
  have e0: "map lc ''Sorry, Fully Booked today'' = map lc (''sorry, '' @ ''fully booked'' @ '' today'')"
    by simp
  have d: "map lc (pageText fullyBookedWorld) = map lc (''sorry, '' @ ''fully booked'' @ '' today'')"
    using t d0 by simp
  have e: "map lc (pageText ?w2) = map lc (''sorry, '' @ ''fully booked'' @ '' today'')"
    using e0 by simp
  from a b c t d0 e0
    sold_out_phrase_classifies [OF a b c d, of exampleConfig initialState]
    sold_out_phrase_classifies [OF a2 b c e, of exampleConfig initialState]
  show ?thesis by blast
qed

text \<open>
  The claim C6 as it is written fails for the variant \<open>sold-out\<close>: a page whose text is
  \<open>sold-out\<close> matches none of the patterns, and the attempt goes on to look for a
  booking button; here there is none and the result is \<open>not_found\<close>.
\<close>

theorem hyphenated_sold_out_counterexample:
  "\<not> list_ex (\<lambda>pattern. test pattern ''sold-out'') soldOutPatterns
   \<and> fst (checkAndBook exampleConfig hyphenWorld initialState)
       = Inr \<lparr>available = False, booked = False, status = Some ''not_found''\<rparr>"
  by (simp add: io_defs attempt_defs text_defs example_defs)




text \<open>
  C8. The lookup by day number, used when the selector of the date finds nothing. A
  cell is selected only if it is one of the candidates and its trimmed text is the day
  number; when the calls resolve, the cell selected is the first candidate whose trimmed
  text is the day number, so a cell that shows exactly the day matches; and for the day
  1, a cell that shows 12 or 21 is never selected.
\<close>

theorem day_number_exact_match:
  assumes "dateElement v = None"
  shows "(lookupDate cfg w v s = (Inr (Some el), s') \<longrightarrow>
            el \<in> set (dayElements v)
            \<and> trim (innerText el) = String (getDate (targetDate cfg @ ''T12:00:00'')))
       \<and> ((\<forall>n. failure w n = None) \<longrightarrow>
            fst (lookupDate cfg w v s) =
              Inr (find (\<lambda>el. trim (innerText el) = String (getDate (targetDate cfg @ ''T12:00:00'')))
                     (dayElements v)))
       \<and> (getDate (targetDate cfg @ ''T12:00:00'') = Num 1 \<and>
            (trim (innerText el) = ''12'' \<or> trim (innerText el) = ''21'') \<longrightarrow>
            lookupDate cfg w v s \<noteq> (Inr (Some el), s'))"
proof -
  let ?day = "String (getDate (targetDate cfg @ ''T12:00:00''))"
  have only_if: "el \<in> set (dayElements v) \<and> trim (innerText el) = ?day"
    if "lookupDate cfg w v s = (Inr (Some el), s')"
    using assms that by (rule lookupDate_fallback_Some)
  have first_match:
    "fst (lookupDate cfg w v s) = Inr (find (\<lambda>el. trim (innerText el) = ?day) (dayElements v))"
    if "\<forall>n. failure w n = None"
    using assms that by (simp add: lookupDate_ok)
  have one: "lookupDate cfg w v s \<noteq> (Inr (Some el), s')"
    if "getDate (targetDate cfg @ ''T12:00:00'') = Num 1 \<and>
        (trim (innerText el) = ''12'' \<or> trim (innerText el) = ''21'')"
  proof
    assume "lookupDate cfg w v s = (Inr (Some el), s')"
    then have "trim (innerText el) = ?day" using only_if by blast
    with that show False by (auto simp: decimal.simps digitChar_def)
  qed
  from only_if first_match one show ?thesis by blast
qed

theorem day_number_exact_match_witness:
  "dateElement dayView = None
   \<and> (\<forall>n. failure soldOutWorld n = None)
   \<and> getDate (targetDate newYearConfig @ ''T12:00:00'') = Num 1
   \<and> fst (lookupDate newYearConfig soldOutWorld dayView initialState) = Inr (Some (dayCell '' 1 ''))
   \<and> lookupDate newYearConfig soldOutWorld dayView initialState
        \<noteq> (Inr (Some (dayCell ''12'')), initialState)
   \<and> lookupDate newYearConfig soldOutWorld dayView initialState
        \<noteq> (Inr (Some (dayCell ''21'')), initialState)"
proof -
  have h: "dateElement dayView = None" by (simp add: dayView_def)
  have n: "\<forall>n. failure soldOutWorld n = None" by (simp add: soldOutWorld_def)
  have d: "getDate (targetDate newYearConfig @ ''T12:00:00'') = Num 1"
    by (simp add: example_defs text_defs)
  show ?thesis
    using h n d
      day_number_exact_match [OF h, of newYearConfig soldOutWorld initialState "dayCell ''12''"
        initialState]
      day_number_exact_match [OF h, of newYearConfig soldOutWorld initialState "dayCell ''21''"
        initialState]
    by (simp add: example_defs text_defs)
qed

text \<open>
  C9, as the code has it. An attempt that clicks the confirm button and returns a result
  returns \<open>available: true, booked: true\<close> when it read the text of the page after the
  click and that text matches the pattern of line 257, and
  \<open>available: true, booked: false\<close> otherwise; the first is the case of the text
  \<open>Thank you, your reservation is confirmed\<close>, when it was read, the second of
  \<open>Something went wrong\<close>. An attempt can also throw after the click: see the
  counterexample.
\<close>

theorem confirmation_text_decides:
  assumes "checkAndBook cfg w s = (Inr r, s')"
    and "callCount (ElClick ConfirmButtonSel) s < callCount (ElClick ConfirmButtonSel) s'"
  shows "r = (if readAfterConfirm s' \<and> test successPattern (successText w)
              then \<lparr>available = True, booked = True, status = None\<rparr>
              else \<lparr>available = True, booked = False, status = None\<rparr>)
       \<and> (readAfterConfirm s' \<and> successText w = ''Thank you, your reservation is confirmed'' \<longrightarrow>
            r = \<lparr>available = True, booked = True, status = None\<rparr>)
       \<and> (successText w = ''Something went wrong'' \<longrightarrow>
            r = \<lparr>available = True, booked = False, status = None\<rparr>)"
proof -
  have general: "r = verdict w s'" using assms by (rule checkAndBook_decides)
  have thanks: "test successPattern ''Thank you, your reservation is confirmed''"
    by (simp add: successPattern_def isWhiteSpace_def test.simps)
  have wrong: "\<not> test successPattern ''Something went wrong''"
    by (simp add: successPattern_def isWhiteSpace_def test.simps)
  from general thanks wrong show ?thesis by (simp add: verdict_def)
qed

theorem confirmation_text_decides_witness:
  "callCount (ElClick ConfirmButtonSel) initialState
       < callCount (ElClick ConfirmButtonSel)
           (snd (checkAndBook exampleConfig bookingWorld initialState))
   \<and> callCount (ElClick ConfirmButtonSel) initialState
       < callCount (ElClick ConfirmButtonSel)
           (snd (checkAndBook exampleConfig wentWrongWorld initialState))
   \<and> readAfterConfirm (snd (checkAndBook exampleConfig bookingWorld initialState))
   \<and> successText bookingWorld = ''Thank you, your reservation is confirmed''
   \<and> successText wentWrongWorld = ''Something went wrong''
   \<and> fst (checkAndBook exampleConfig bookingWorld initialState)
       = Inr \<lparr>available = True, booked = True, status = None\<rparr>
   \<and> fst (checkAndBook exampleConfig wentWrongWorld initialState)
       = Inr \<lparr>available = True, booked = False, status = None\<rparr>"
proof -
  let ?c = "ElClick ConfirmButtonSel"
  let ?r1 = "checkAndBook exampleConfig bookingWorld initialState"
  let ?r2 = "checkAndBook exampleConfig wentWrongWorld initialState"
  have b1: "callCount ?c initialState < callCount ?c (snd ?r1)"
    by (simp add: io_defs attempt_defs text_defs example_defs callCount_def)
  have b2: "callCount ?c initialState < callCount ?c (snd ?r2)"
    by (simp add: io_defs attempt_defs text_defs example_defs callCount_def)
  have rd: "readAfterConfirm (snd ?r1)"
    by (simp add: io_defs attempt_defs text_defs example_defs readAfterConfirm_def)
  have t1: "successText bookingWorld = ''Thank you, your reservation is confirmed''"
    by (simp add: bookingWorld_def)
  have t2: "successText wentWrongWorld = ''Something went wrong''"
    by (simp add: wentWrongWorld_def)
  have "\<not> isl (fst ?r1)"
    by (simp add: io_defs attempt_defs text_defs example_defs)
  then obtain x1 where p1: "?r1 = (Inr x1, snd ?r1)"
    by (cases "fst ?r1") (simp_all add: prod_eq_iff)
  have "\<not> isl (fst ?r2)"
    by (simp add: io_defs attempt_defs text_defs example_defs)
  then obtain x2 where p2: "?r2 = (Inr x2, snd ?r2)"
    by (cases "fst ?r2") (simp_all add: prod_eq_iff)
  have "x1 = \<lparr>available = True, booked = True, status = None\<rparr>"
    using confirmation_text_decides [OF p1 b1] rd t1 by blast
  with p1 have r1: "fst ?r1 = Inr \<lparr>available = True, booked = True, status = None\<rparr>"
    by (simp add: prod_eq_iff)
  have "x2 = \<lparr>available = True, booked = False, status = None\<rparr>"
    using confirmation_text_decides [OF p2 b2] t2 by blast
  with p2 have r2: "fst ?r2 = Inr \<lparr>available = True, booked = False, status = None\<rparr>"
    by (simp add: prod_eq_iff)
  from b1 b2 rd t1 t2 r1 r2 show ?thesis by blast
qed

text \<open>
  The claim C9 as it is written fails when a call after the confirm click rejects: in a
  world where the page reads \<open>Thank you, your reservation is confirmed\<close> after the
  click and the \<^verbatim>\<open>browser.close()\<close> of line 258 rejects, the attempt clicks the confirm
  button, reads the text and throws the error of the call; it returns no result.
\<close>

theorem close_rejects_counterexample:
  "successText closeFailsWorld = ''Thank you, your reservation is confirmed''
   \<and> callCount (ElClick ConfirmButtonSel)
        (snd (checkAndBook exampleConfig closeFailsWorld initialState)) = 1
   \<and> readAfterConfirm (snd (checkAndBook exampleConfig closeFailsWorld initialState))
   \<and> fst (checkAndBook exampleConfig closeFailsWorld initialState)
       = Inl (JsError ''Target closed'')"
  by (simp add: io_defs attempt_defs text_defs example_defs callCount_def readAfterConfirm_def)

text \<open>
  C10. The configuration is valid and the signal is already aborted when
  \<^verbatim>\<open>startMonitor\<close> is called: the run sends its starting status and its stop status and
  returns \<open>booked: false\<close>. Nothing else is added to the trace, whatever attempts the
  world would allow, so the body of the loop is never run and no browser is launched.
\<close>

theorem aborted_before_start:
  assumes "email cfg \<noteq> []" and "password cfg \<noteq> []" and "seasonPass cfg \<noteq> []"
    and "licensePlate cfg \<noteq> []" and "targetDate cfg \<noteq> []"
    and "aborted signal (now s)"
  shows "startMonitor cfg signal ws s =
           (Some \<lparr>monitor_booked = False\<rparr>,
            s\<lparr>trace := trace s @
               [(now s, Status Monitoring (''Starting monitor for '' @ targetDate cfg
                   @ '' (checking every '' @ minutes (intervalMs cfg) @ '' min)'')),
                (now s, Status Monitoring ''Monitor stopped'')]\<rparr>)"
  using assms
  by (cases ws) (simp_all add: startMonitor_def required_def emit_def monitorStopped_def)

theorem aborted_before_start_witness:
  "email exampleConfig \<noteq> [] \<and> password exampleConfig \<noteq> [] \<and> seasonPass exampleConfig \<noteq> []
   \<and> licensePlate exampleConfig \<noteq> [] \<and> targetDate exampleConfig \<noteq> []
   \<and> aborted (Some 0) (now initialState)
   \<and> startMonitor exampleConfig (Some 0) [bookingWorld] initialState =
       (Some \<lparr>monitor_booked = False\<rparr>,
        initialState\<lparr>trace :=
          [(0, Status Monitoring ''Starting monitor for 2025-01-15 (checking every 1 min)''),
           (0, Status Monitoring ''Monitor stopped'')]\<rparr>)"
proof -
  have h: "email exampleConfig \<noteq> []" "password exampleConfig \<noteq> []"
    "seasonPass exampleConfig \<noteq> []" "licensePlate exampleConfig \<noteq> []"
    "targetDate exampleConfig \<noteq> []" "aborted (Some 0) (now initialState)"
    by (simp_all add: example_defs)
  show ?thesis
    using h aborted_before_start [OF h, of "[bookingWorld]"]
    by (simp add: example_defs text_defs)
qed

end
